theory Spec2Isabelle
  imports Main "HOL-Library.Word"
begin

unbundle bit_operations_syntax

section \<open>Data model of \<open>types/wlr_keyboard.c\<close>\<close>

text \<open>
  The keyboard core of wlroots keeps the set of held keycodes, the four serialized
  modifier masks, the keymap with the translation state derived from it, and two index
  tables. All masks, keycodes and indices are \<open>uint32_t\<close>.
\<close>

type_synonym u32 = "32 word"

datatype wlr_key_state = WLR_KEY_RELEASED | WLR_KEY_PRESSED

record wlr_event_keyboard_key =
  time_msec :: u32
  keycode :: u32
  update_state :: bool
  state :: wlr_key_state

record wlr_keyboard_modifiers =
  depressed :: u32
  latched :: u32
  locked :: u32
  group :: u32

text \<open>
  The backend interface \<open>struct wlr_keyboard_impl\<close> holds two optional function
  pointers. A field is \<open>True\<close> when the pointer is not \<open>NULL\<close>; calling through it is
  recorded as an effect.
\<close>

record wlr_keyboard_impl =
  destroy :: bool
  led_update :: bool

text \<open>
  \<open>struct wlr_keyboard\<close>. A pointer field is an \<open>option\<close> (\<open>None\<close> for \<open>NULL\<close>). The
  arrays \<open>led_indexes\<close> and \<open>mod_indexes\<close> are lists of their fixed lengths; \<open>keycodes\<close>
  holds the first \<open>num_keycodes\<close> cells of the C array, so that \<open>num_keycodes\<close> is its
  length.
\<close>

record ('km, 'st) wlr_keyboard =
  impl :: "wlr_keyboard_impl option"
  keymap_string :: "string option"
  keymap_size :: nat
  keymap :: "'km option"
  xkb_state :: "'st option"
  led_indexes :: "u32 list"
  mod_indexes :: "u32 list"
  keycodes :: "u32 list"
  modifiers :: wlr_keyboard_modifiers

abbreviation num_keycodes :: "('km, 'st) wlr_keyboard \<Rightarrow> nat" where
  "num_keycodes kb \<equiv> length (keycodes kb)"

definition WLR_LED_COUNT :: nat where
  "WLR_LED_COUNT = 3"

definition WLR_MODIFIER_COUNT :: nat where
  "WLR_MODIFIER_COUNT = 8"

text \<open>
  Modelled from the spec: the capacity of the key set, declared in a header that is not
  part of the sources at hand (``capacity-bounded (fixed maximum, e.g. 32)'').
\<close>

definition WLR_KEYBOARD_KEYS_CAP :: nat where
  "WLR_KEYBOARD_KEYS_CAP = 32"

subsection \<open>The keymap library\<close>

text \<open>
  libxkbcommon is an external collaborator. Its keymap and state objects are the type
  parameters \<open>'km\<close> and \<open>'st\<close>, and the functions the keyboard core calls are the fields of
  a record passed to every operation. A constructor that may return \<open>NULL\<close> returns an
  \<open>option\<close>; a function that mutates the state object returns the new state;
  \<open>xkb_state_led_index_is_active\<close> returns a C \<open>int\<close>.
\<close>

datatype xkb_key_direction = XKB_KEY_UP | XKB_KEY_DOWN

datatype xkb_state_component =
  XKB_STATE_MODS_DEPRESSED
| XKB_STATE_MODS_LATCHED
| XKB_STATE_MODS_LOCKED
| XKB_STATE_LAYOUT_EFFECTIVE

record ('km, 'st) xkb =
  xkb_state_new :: "'km \<Rightarrow> 'st option"
  xkb_keymap_get_as_string :: "'km \<Rightarrow> string option"
  xkb_map_led_get_index :: "'km \<Rightarrow> string \<Rightarrow> u32"
  xkb_map_mod_get_index :: "'km \<Rightarrow> string \<Rightarrow> u32"
  xkb_state_update_key :: "'st \<Rightarrow> u32 \<Rightarrow> xkb_key_direction \<Rightarrow> 'st"
  xkb_state_update_mask :: "'st \<Rightarrow> u32 \<Rightarrow> u32 \<Rightarrow> u32 \<Rightarrow> u32 \<Rightarrow> u32 \<Rightarrow> u32 \<Rightarrow> 'st"
  xkb_state_serialize_mods :: "'st \<Rightarrow> xkb_state_component \<Rightarrow> u32"
  xkb_state_serialize_layout :: "'st \<Rightarrow> xkb_state_component \<Rightarrow> u32"
  xkb_state_led_index_is_active :: "'st \<Rightarrow> u32 \<Rightarrow> int"

definition XKB_MOD_INVALID :: u32 where
  "XKB_MOD_INVALID = 0xffffffff"

definition XKB_LED_INVALID :: u32 where
  "XKB_LED_INVALID = 0xffffffff"

text \<open>The names looked up by \<open>wlr_keyboard_set_keymap\<close>, in the order of its two tables.\<close>

definition led_names :: "string list" where
  "led_names = [''Num Lock'', ''Caps Lock'', ''Scroll Lock'']"

definition mod_names :: "string list" where
  "mod_names = [''Shift'', ''Lock'', ''Control'', ''Mod1'', ''Mod2'', ''Mod3'', ''Mod4'', ''Mod5'']"

subsection \<open>Effects\<close>

text \<open>
  Every operation returns the new keyboard together with the list of its outward effects
  in program order: signals emitted with \<open>wlr_signal_emit_safe\<close>, calls through the
  backend's function pointers, reference counting of keymaps and states, and log lines.
\<close>

datatype 'km effect =
  Signal_key wlr_event_keyboard_key
| Signal_modifiers
| Signal_keymap
| Signal_repeat_info
| Signal_destroy
| Impl_led_update u32
| Keymap_ref 'km
| Keymap_unref 'km
| State_unref
| Log_error string

fun is_signal :: "'km effect \<Rightarrow> bool" where
  "is_signal (Signal_key _) = True"
| "is_signal Signal_modifiers = True"
| "is_signal Signal_keymap = True"
| "is_signal Signal_repeat_info = True"
| "is_signal Signal_destroy = True"
| "is_signal _ = False"

fun is_led_push :: "'km effect \<Rightarrow> bool" where
  "is_led_push (Impl_led_update _) = True"
| "is_led_push _ = False"

datatype error = Assertion_failed

section \<open>The key set\<close>

text \<open>
  Modelled from the spec: \<open>set_add\<close> and \<open>set_remove\<close> of \<open>util/array.h\<close>, whose
  definitions are not part of the sources at hand. ``\<open>add(keycode)\<close> inserts if absent,
  capped at capacity''; ``\<open>remove(keycode)\<close> deletes if present, no-op otherwise''.
\<close>

definition set_add :: "u32 list \<Rightarrow> nat \<Rightarrow> u32 \<Rightarrow> u32 list" where
  "set_add values cap target =
     (if target \<in> set values then values
      else if length values < cap then values @ [target]
      else values)"

definition set_remove :: "u32 list \<Rightarrow> nat \<Rightarrow> u32 \<Rightarrow> u32 list" where
  "set_remove values cap target = remove1 target values"

definition keyboard_key_update ::
  "('km, 'st) wlr_keyboard \<Rightarrow> wlr_event_keyboard_key \<Rightarrow> error + ('km, 'st) wlr_keyboard" where
  "keyboard_key_update keyboard event =
     (let kb1 = (if state event = WLR_KEY_PRESSED
                 then keyboard\<lparr>keycodes :=
                        set_add (keycodes keyboard) WLR_KEYBOARD_KEYS_CAP (keycode event)\<rparr>
                 else keyboard);
          kb2 = (if state event = WLR_KEY_RELEASED
                 then kb1\<lparr>keycodes :=
                        set_remove (keycodes kb1) WLR_KEYBOARD_KEYS_CAP (keycode event)\<rparr>
                 else kb1)
      in if num_keycodes kb2 \<le> WLR_KEYBOARD_KEYS_CAP then Inr kb2 else Inl Assertion_failed)"

section \<open>Indicators and modifiers\<close>

definition wlr_keyboard_led_update :: "('km, 'st) wlr_keyboard \<Rightarrow> u32 \<Rightarrow> 'km effect list" where
  "wlr_keyboard_led_update kb leds =
     (case impl kb of
        None \<Rightarrow> []
      | Some i \<Rightarrow> if led_update i then [Impl_led_update leds] else [])"

text \<open>
  The loop of \<open>keyboard_led_update\<close>: bit \<open>i\<close> is set when the library's answer for
  \<open>led_indexes[i]\<close> is non-zero, which is how C reads an \<open>int\<close> as a condition.
\<close>

definition led_mask :: "('km, 'st) xkb \<Rightarrow> 'st \<Rightarrow> u32 list \<Rightarrow> u32" where
  "led_mask lib st idxs =
     fold (\<lambda>i leds. if xkb_state_led_index_is_active lib st (idxs ! i) \<noteq> 0
                     then leds OR push_bit i 1 else leds)
          [0..<WLR_LED_COUNT] 0"

definition keyboard_led_update ::
  "('km, 'st) xkb \<Rightarrow> ('km, 'st) wlr_keyboard \<Rightarrow> 'km effect list" where
  "keyboard_led_update lib keyboard =
     (case xkb_state keyboard of
        None \<Rightarrow> []
      | Some st \<Rightarrow> wlr_keyboard_led_update keyboard (led_mask lib st (led_indexes keyboard)))"

text \<open>The four values \<open>keyboard_modifier_update\<close> reads from the translation state.\<close>

definition serialized :: "('km, 'st) xkb \<Rightarrow> 'st \<Rightarrow> wlr_keyboard_modifiers" where
  "serialized lib st =
     \<lparr>depressed = xkb_state_serialize_mods lib st XKB_STATE_MODS_DEPRESSED,
      latched = xkb_state_serialize_mods lib st XKB_STATE_MODS_LATCHED,
      locked = xkb_state_serialize_mods lib st XKB_STATE_MODS_LOCKED,
      group = xkb_state_serialize_layout lib st XKB_STATE_LAYOUT_EFFECTIVE\<rparr>"

definition keyboard_modifier_update ::
  "('km, 'st) xkb \<Rightarrow> ('km, 'st) wlr_keyboard \<Rightarrow> bool \<times> ('km, 'st) wlr_keyboard" where
  "keyboard_modifier_update lib keyboard =
     (case xkb_state keyboard of
        None \<Rightarrow> (False, keyboard)
      | Some st \<Rightarrow>
          let new = serialized lib st in
          if depressed new = depressed (modifiers keyboard) \<and>
             latched new = latched (modifiers keyboard) \<and>
             locked new = locked (modifiers keyboard) \<and>
             group new = group (modifiers keyboard)
          then (False, keyboard)
          else (True, keyboard\<lparr>modifiers := (modifiers keyboard)
                  \<lparr>depressed := depressed new, latched := latched new,
                   locked := locked new, group := group new\<rparr>\<rparr>))"

section \<open>The public operations\<close>

definition wlr_keyboard_notify_modifiers ::
  "('km, 'st) xkb \<Rightarrow> ('km, 'st) wlr_keyboard \<Rightarrow> u32 \<Rightarrow> u32 \<Rightarrow> u32 \<Rightarrow> u32 \<Rightarrow>
   ('km, 'st) wlr_keyboard \<times> 'km effect list" where
  "wlr_keyboard_notify_modifiers lib keyboard mods_depressed mods_latched mods_locked grp =
     (case xkb_state keyboard of
        None \<Rightarrow> (keyboard, [])
      | Some st \<Rightarrow>
          let kb1 = keyboard\<lparr>xkb_state := Some (xkb_state_update_mask lib st
                      mods_depressed mods_latched mods_locked 0 0 grp)\<rparr>;
              (updated, kb2) = keyboard_modifier_update lib kb1
          in (kb2, (if updated then [Signal_modifiers] else []) @ keyboard_led_update lib kb2))"

definition wlr_keyboard_notify_key ::
  "('km, 'st) xkb \<Rightarrow> ('km, 'st) wlr_keyboard \<Rightarrow> wlr_event_keyboard_key \<Rightarrow>
   error + (('km, 'st) wlr_keyboard \<times> 'km effect list)" where
  "wlr_keyboard_notify_key lib keyboard event =
     (case keyboard_key_update keyboard event of
        Inl e \<Rightarrow> Inl e
      | Inr kb0 \<Rightarrow>
          (case xkb_state kb0 of
             None \<Rightarrow> Inr (kb0, [Signal_key event])
           | Some st \<Rightarrow>
               let kb1 = (if update_state event
                          then kb0\<lparr>xkb_state := Some (xkb_state_update_key lib st
                                 (keycode event + 8)
                                 (if state event = WLR_KEY_PRESSED
                                  then XKB_KEY_DOWN else XKB_KEY_UP))\<rparr>
                          else kb0);
                   (updated, kb2) = keyboard_modifier_update lib kb1
               in Inr (kb2, [Signal_key event]
                            @ (if updated then [Signal_modifiers] else [])
                            @ keyboard_led_update lib kb2)))"

text \<open>\<open>xkb_keymap_unref\<close> and \<open>xkb_state_unref\<close> do nothing on \<open>NULL\<close>.\<close>

definition keymap_unref :: "'km option \<Rightarrow> 'km effect list" where
  "keymap_unref k = (case k of None \<Rightarrow> [] | Some km \<Rightarrow> [Keymap_unref km])"

definition state_unref :: "'st option \<Rightarrow> 'km effect list" where
  "state_unref s = (case s of None \<Rightarrow> [] | Some st \<Rightarrow> [State_unref])"

text \<open>The code after the label \<open>err\<close> of \<open>wlr_keyboard_set_keymap\<close>.\<close>

definition set_keymap_err ::
  "('km, 'st) wlr_keyboard \<Rightarrow> 'km \<Rightarrow> ('km, 'st) wlr_keyboard \<times> 'km effect list" where
  "set_keymap_err kb km =
     (kb\<lparr>xkb_state := None, keymap := None, keymap_string := None\<rparr>,
      state_unref (xkb_state kb) @ [Keymap_unref km])"

text \<open>The two loops that fill the index tables, one cell at a time.\<close>

definition fill_led_indexes :: "('km, 'st) xkb \<Rightarrow> 'km \<Rightarrow> u32 list \<Rightarrow> u32 list" where
  "fill_led_indexes lib km tbl =
     fold (\<lambda>i t. t[i := xkb_map_led_get_index lib km (led_names ! i)]) [0..<WLR_LED_COUNT] tbl"

definition fill_mod_indexes :: "('km, 'st) xkb \<Rightarrow> 'km \<Rightarrow> u32 list \<Rightarrow> u32 list" where
  "fill_mod_indexes lib km tbl =
     fold (\<lambda>i t. t[i := xkb_map_mod_get_index lib km (mod_names ! i)])
          [0..<WLR_MODIFIER_COUNT] tbl"

text \<open>The replay loop: every held keycode, offset by 8, goes down in the new state.\<close>

definition replay_keys :: "('km, 'st) xkb \<Rightarrow> u32 list \<Rightarrow> 'st \<Rightarrow> 'st" where
  "replay_keys lib ks st = fold (\<lambda>k s. xkb_state_update_key lib s (k + 8) XKB_KEY_DOWN) ks st"

definition wlr_keyboard_set_keymap ::
  "('km, 'st) xkb \<Rightarrow> ('km, 'st) wlr_keyboard \<Rightarrow> 'km \<Rightarrow>
   ('km, 'st) wlr_keyboard \<times> 'km effect list" where
  "wlr_keyboard_set_keymap lib kb km =
     (let t0 = keymap_unref (keymap kb) @ [Keymap_ref km] @ state_unref (xkb_state kb);
          kb1 = kb\<lparr>keymap := Some km, xkb_state := xkb_state_new lib km\<rparr>
      in case xkb_state kb1 of
           None \<Rightarrow>
             (let (kb', t) = set_keymap_err kb1 km
              in (kb', t0 @ [Log_error ''Failed to create XKB state''] @ t))
         | Some st \<Rightarrow>
             (let kb2 = kb1\<lparr>led_indexes := fill_led_indexes lib km (led_indexes kb1)\<rparr>;
                  kb3 = kb2\<lparr>mod_indexes := fill_mod_indexes lib km (mod_indexes kb2)\<rparr>
              in case xkb_keymap_get_as_string lib km of
                   None \<Rightarrow>
                     (let (kb', t) = set_keymap_err kb3 km
                      in (kb', t0 @ [Log_error ''Failed to get string version of keymap''] @ t))
                 | Some s \<Rightarrow>
                     (let kb4 = kb3\<lparr>keymap_string := Some s, keymap_size := length s + 1\<rparr>;
                          kb5 = kb4\<lparr>xkb_state := Some (replay_keys lib (keycodes kb4) st)\<rparr>;
                          (updated, kb6) = keyboard_modifier_update lib kb5
                      in (kb6, t0 @ [Signal_keymap]))))"

text \<open>
  The shift \<open>1 << kb->mod_indexes[i]\<close> of \<open>wlr_keyboard_get_modifiers\<close>. C defines it for
  shift counts below 32 only; for a larger count the compiled code takes the count
  modulo 32, and so does \<open>shift_left_1\<close>. \<open>mod_index_defined\<close> holds for the table entries
  on which the function stays within defined C: the invalid index, which the guard keeps
  away from the shift, and the counts below 32. libxkbcommon, with at most 32 modifiers
  in a keymap, returns no other index.
\<close>

definition shift_left_1 :: "u32 \<Rightarrow> u32" where
  "shift_left_1 n = push_bit (unat n mod 32) 1"

definition mod_index_defined :: "u32 \<Rightarrow> bool" where
  "mod_index_defined idx = (idx = XKB_MOD_INVALID \<or> unat idx < 32)"

definition mod_table_defined :: "('km, 'st) wlr_keyboard \<Rightarrow> bool" where
  "mod_table_defined kb =
     (length (mod_indexes kb) = WLR_MODIFIER_COUNT \<and>
      list_all mod_index_defined (mod_indexes kb))"

definition wlr_keyboard_get_modifiers :: "('km, 'st) wlr_keyboard \<Rightarrow> u32" where
  "wlr_keyboard_get_modifiers kb =
     (let mask = depressed (modifiers kb) OR latched (modifiers kb)
      in fold (\<lambda>i mods.
                 if mod_indexes kb ! i \<noteq> XKB_MOD_INVALID \<and>
                    mask AND shift_left_1 (mod_indexes kb ! i) \<noteq> 0
                 then mods OR push_bit i 1 else mods)
              [0..<WLR_MODIFIER_COUNT] 0)"

text \<open>The condition \<open>kb->impl && kb->impl->led_update\<close> of \<open>wlr_keyboard_led_update\<close>.\<close>

definition impl_has_led_update :: "('km, 'st) wlr_keyboard \<Rightarrow> bool" where
  "impl_has_led_update kb = (case impl kb of None \<Rightarrow> False | Some i \<Rightarrow> led_update i)"

section \<open>Sequences of operations\<close>

text \<open>
  The states a keyboard can reach: the three state-changing operations, run one after
  the other from a keyboard without a keymap. A failed assertion ends the run.
\<close>

datatype 'km keyboard_op =
  Notify_key wlr_event_keyboard_key
| Notify_modifiers u32 u32 u32 u32
| Set_keymap 'km

fun apply_op ::
  "('km, 'st) xkb \<Rightarrow> ('km, 'st) wlr_keyboard \<Rightarrow> 'km keyboard_op \<Rightarrow>
   error + ('km, 'st) wlr_keyboard" where
  "apply_op lib kb (Notify_key ev) =
     (case wlr_keyboard_notify_key lib kb ev of
        Inl e \<Rightarrow> Inl e
      | Inr (kb', t) \<Rightarrow> Inr kb')"
| "apply_op lib kb (Notify_modifiers d l lk g) =
     Inr (fst (wlr_keyboard_notify_modifiers lib kb d l lk g))"
| "apply_op lib kb (Set_keymap km) = Inr (fst (wlr_keyboard_set_keymap lib kb km))"

fun run_ops ::
  "('km, 'st) xkb \<Rightarrow> ('km, 'st) wlr_keyboard \<Rightarrow> 'km keyboard_op list \<Rightarrow>
   error + ('km, 'st) wlr_keyboard" where
  "run_ops lib kb [] = Inr kb"
| "run_ops lib kb (x # xs) =
     (case apply_op lib kb x of
        Inl e \<Rightarrow> Inl e
      | Inr kb' \<Rightarrow> run_ops lib kb' xs)"

text \<open>
  What the operations keep true of a keyboard: the key set is within its capacity, the
  two tables have their fixed lengths, and while a keymap is loaded the modifier-index
  table is the one looked up in that keymap.
\<close>

definition table_of_keymap :: "('km, 'st) xkb \<Rightarrow> ('km, 'st) wlr_keyboard \<Rightarrow> bool" where
  "table_of_keymap lib kb =
     (case keymap kb of
        None \<Rightarrow> True
      | Some km \<Rightarrow> mod_indexes kb = map (xkb_map_mod_get_index lib km) mod_names)"

definition kb_invariant :: "('km, 'st) xkb \<Rightarrow> ('km, 'st) wlr_keyboard \<Rightarrow> bool" where
  "kb_invariant lib kb =
     (num_keycodes kb \<le> WLR_KEYBOARD_KEYS_CAP \<and>
      length (led_indexes kb) = WLR_LED_COUNT \<and>
      length (mod_indexes kb) = WLR_MODIFIER_COUNT \<and>
      table_of_keymap lib kb)"

text \<open>
  The effective modifiers as the spec words them: modifier \<open>i\<close> of the fixed order is
  active when its index is present in the current keymap and the bit at that index is
  set in the union of the stored depressed and latched masks. Without a current keymap
  no index is present.
\<close>

definition spec_effective_modifier ::
  "('km, 'st) xkb \<Rightarrow> ('km, 'st) wlr_keyboard \<Rightarrow> nat \<Rightarrow> bool" where
  "spec_effective_modifier lib kb i =
     (case keymap kb of
        None \<Rightarrow> False
      | Some km \<Rightarrow>
          i < WLR_MODIFIER_COUNT \<and>
          xkb_map_mod_get_index lib km (mod_names ! i) \<noteq> XKB_MOD_INVALID \<and>
          bit (depressed (modifiers kb) OR latched (modifiers kb))
              (unat (xkb_map_mod_get_index lib km (mod_names ! i))))"

section \<open>Sequences of key events and the pressed keys of the spec\<close>

text \<open>\<open>keyboard_key_update\<close> run over a sequence of events, stopping at a failed assertion.\<close>

fun key_updates ::
  "('km, 'st) wlr_keyboard \<Rightarrow> wlr_event_keyboard_key list \<Rightarrow> error + ('km, 'st) wlr_keyboard" where
  "key_updates kb [] = Inr kb"
| "key_updates kb (ev # evs) =
     (case keyboard_key_update kb ev of
        Inl e \<Rightarrow> Inl e
      | Inr kb' \<Rightarrow> key_updates kb' evs)"

text \<open>
  The spec's ``currently-pressed keycodes'': a press puts the keycode into the set, a
  release takes it out. \<open>spec_within_capacity\<close> holds when the number of pressed keycodes
  stays within the capacity before and after every event of the sequence.
\<close>

definition spec_step :: "u32 set \<Rightarrow> wlr_event_keyboard_key \<Rightarrow> u32 set" where
  "spec_step S ev =
     (case state ev of
        WLR_KEY_PRESSED \<Rightarrow> insert (keycode ev) S
      | WLR_KEY_RELEASED \<Rightarrow> S - {keycode ev})"

fun spec_pressed :: "u32 set \<Rightarrow> wlr_event_keyboard_key list \<Rightarrow> u32 set" where
  "spec_pressed S [] = S"
| "spec_pressed S (ev # evs) = spec_pressed (spec_step S ev) evs"

fun spec_within_capacity :: "nat \<Rightarrow> u32 set \<Rightarrow> wlr_event_keyboard_key list \<Rightarrow> bool" where
  "spec_within_capacity cap S [] = (card S \<le> cap)"
| "spec_within_capacity cap S (ev # evs) =
     (card S \<le> cap \<and> spec_within_capacity cap (spec_step S ev) evs)"

section \<open>A concrete keymap library\<close>

text \<open>
  To run the operations on concrete inputs, the library is instantiated with a small
  keymap library that follows the return conventions documented by libxkbcommon. A keymap
  lists its modifier and indicator names (the index of a name is its position, and a
  name that is not listed has the invalid index \<open>0xffffffff\<close>) and the modifier mask each
  keycode holds down; \<open>xkb_state_led_index_is_active\<close> answers 1 for a lit indicator,
  0 for a dark one and -1 for an index that is not valid in the keymap. Indicator \<open>i\<close> is
  lit when bit \<open>i\<close> of the locked mask is set.
\<close>

record toy_keymap =
  tk_state_ok :: bool
  tk_text :: "string option"
  tk_mods :: "string list"
  tk_leds :: "string list"
  tk_keys :: "(u32 \<times> u32) list"

record toy_state =
  ts_keymap :: toy_keymap
  ts_depressed :: u32
  ts_latched :: u32
  ts_locked :: u32
  ts_group :: u32

fun toy_index :: "string list \<Rightarrow> string \<Rightarrow> nat \<Rightarrow> u32" where
  "toy_index [] name i = 0xffffffff"
| "toy_index (x # xs) name i = (if x = name then of_nat i else toy_index xs name (Suc i))"

fun toy_key_mask :: "(u32 \<times> u32) list \<Rightarrow> u32 \<Rightarrow> u32" where
  "toy_key_mask [] k = 0"
| "toy_key_mask ((k', m) # ks) k = (if k' = k then m else toy_key_mask ks k)"

definition toy_state_new :: "toy_keymap \<Rightarrow> toy_state option" where
  "toy_state_new km =
     (if tk_state_ok km
      then Some \<lparr>ts_keymap = km, ts_depressed = 0, ts_latched = 0, ts_locked = 0, ts_group = 0\<rparr>
      else None)"

definition toy_update_key :: "toy_state \<Rightarrow> u32 \<Rightarrow> xkb_key_direction \<Rightarrow> toy_state" where
  "toy_update_key st k dir =
     (case dir of
        XKB_KEY_DOWN \<Rightarrow>
          st\<lparr>ts_depressed := ts_depressed st OR toy_key_mask (tk_keys (ts_keymap st)) k\<rparr>
      | XKB_KEY_UP \<Rightarrow>
          st\<lparr>ts_depressed := ts_depressed st AND NOT (toy_key_mask (tk_keys (ts_keymap st)) k)\<rparr>)"

definition toy_update_mask ::
  "toy_state \<Rightarrow> u32 \<Rightarrow> u32 \<Rightarrow> u32 \<Rightarrow> u32 \<Rightarrow> u32 \<Rightarrow> u32 \<Rightarrow> toy_state" where
  "toy_update_mask st d l lk dl ll lg =
     st\<lparr>ts_depressed := d, ts_latched := l, ts_locked := lk, ts_group := lg\<rparr>"

definition toy_serialize_mods :: "toy_state \<Rightarrow> xkb_state_component \<Rightarrow> u32" where
  "toy_serialize_mods st c =
     (case c of
        XKB_STATE_MODS_DEPRESSED \<Rightarrow> ts_depressed st
      | XKB_STATE_MODS_LATCHED \<Rightarrow> ts_latched st
      | XKB_STATE_MODS_LOCKED \<Rightarrow> ts_locked st
      | XKB_STATE_LAYOUT_EFFECTIVE \<Rightarrow> 0)"

definition toy_serialize_layout :: "toy_state \<Rightarrow> xkb_state_component \<Rightarrow> u32" where
  "toy_serialize_layout st c =
     (case c of XKB_STATE_LAYOUT_EFFECTIVE \<Rightarrow> ts_group st | _ \<Rightarrow> 0)"

definition toy_led_index_is_active :: "toy_state \<Rightarrow> u32 \<Rightarrow> int" where
  "toy_led_index_is_active st idx =
     (if unat idx < length (tk_leds (ts_keymap st))
      then (if bit (ts_locked st) (unat idx) then 1 else 0)
      else - 1)"

definition toy_xkb :: "(toy_keymap, toy_state) xkb" where
  "toy_xkb =
     \<lparr>xkb_state_new = toy_state_new,
      xkb_keymap_get_as_string = tk_text,
      xkb_map_led_get_index = (\<lambda>km name. toy_index (tk_leds km) name 0),
      xkb_map_mod_get_index = (\<lambda>km name. toy_index (tk_mods km) name 0),
      xkb_state_update_key = toy_update_key,
      xkb_state_update_mask = toy_update_mask,
      xkb_state_serialize_mods = toy_serialize_mods,
      xkb_state_serialize_layout = toy_serialize_layout,
      xkb_state_led_index_is_active = toy_led_index_is_active\<rparr>"

text \<open>
  Keymap A defines the eight standard modifiers and the three indicators, with Shift on
  keycode 50 (58 after the offset). Keymap B knows neither Scroll Lock nor Mod5 and lists
  its modifiers in another order. Keymap C is rejected by the state constructor, and
  keymap D cannot be serialized.
\<close>

definition keymap_A :: toy_keymap where
  "keymap_A =
     \<lparr>tk_state_ok = True, tk_text = Some ''xkb_keymap { A };'',
      tk_mods = [''Shift'', ''Lock'', ''Control'', ''Mod1'', ''Mod2'', ''Mod3'', ''Mod4'', ''Mod5''],
      tk_leds = [''Caps Lock'', ''Num Lock'', ''Scroll Lock''],
      tk_keys = [(58, 1), (45, 4)]\<rparr>"

definition keymap_B :: toy_keymap where
  "keymap_B =
     \<lparr>tk_state_ok = True, tk_text = Some ''xkb_keymap { B };'',
      tk_mods = [''Control'', ''Shift'', ''Lock'', ''Mod1'', ''Mod2'', ''Mod3'', ''Mod4''],
      tk_leds = [''Num Lock'', ''Caps Lock''],
      tk_keys = [(58, 2)]\<rparr>"

definition keymap_C :: toy_keymap where
  "keymap_C = keymap_B\<lparr>tk_state_ok := False\<rparr>"

definition keymap_D :: toy_keymap where
  "keymap_D = keymap_B\<lparr>tk_text := None\<rparr>"

text \<open>A keyboard as \<open>calloc\<close> leaves it, with a backend that has an indicator hook.\<close>

definition kb_init :: "(toy_keymap, toy_state) wlr_keyboard" where
  "kb_init =
     \<lparr>impl = Some \<lparr>destroy = False, led_update = True\<rparr>,
      keymap_string = None, keymap_size = 0, keymap = None, xkb_state = None,
      led_indexes = [0, 0, 0], mod_indexes = [0, 0, 0, 0, 0, 0, 0, 0],
      keycodes = [], modifiers = \<lparr>depressed = 0, latched = 0, locked = 0, group = 0\<rparr>\<rparr>"

definition press :: "u32 \<Rightarrow> wlr_event_keyboard_key" where
  "press k = \<lparr>time_msec = 0, keycode = k, update_state = True, state = WLR_KEY_PRESSED\<rparr>"

definition release :: "u32 \<Rightarrow> wlr_event_keyboard_key" where
  "release k = \<lparr>time_msec = 0, keycode = k, update_state = True, state = WLR_KEY_RELEASED\<rparr>"

text \<open>
  The keyboards used below: \<open>kb_A\<close> and \<open>kb_B\<close> have keymap A and keymap B loaded,
  \<open>kb_mods\<close> is \<open>kb_B\<close> after the injection of one depressed, one latched and one locked
  modifier (the operations \<open>ops_to_kb_mods\<close> lead to it), \<open>kb_failed\<close> is \<open>kb_mods\<close> after a
  swap to keymap C, which fails (\<open>ops_to_kb_failed\<close>), \<open>kb_held\<close> has no keymap yet and holds keycodes 50 and 30, \<open>kb_no_hook\<close> is \<open>kb_A\<close> on
  a backend without an indicator hook. \<open>presses_33\<close> presses the keycodes 0 to 32 one
  after the other, which leaves the key set as in \<open>kb_full\<close>; \<open>key_events_example\<close> is a
  short sequence with a repeated press and a release of a key that is not held.
\<close>

definition kb_A :: "(toy_keymap, toy_state) wlr_keyboard" where
  "kb_A = fst (wlr_keyboard_set_keymap toy_xkb kb_init keymap_A)"

definition st_A :: toy_state where
  "st_A = \<lparr>ts_keymap = keymap_A, ts_depressed = 0, ts_latched = 0, ts_locked = 0, ts_group = 0\<rparr>"

definition kb_B :: "(toy_keymap, toy_state) wlr_keyboard" where
  "kb_B = fst (wlr_keyboard_set_keymap toy_xkb kb_init keymap_B)"

definition st_B :: toy_state where
  "st_B = \<lparr>ts_keymap = keymap_B, ts_depressed = 0, ts_latched = 0, ts_locked = 0, ts_group = 0\<rparr>"

definition kb_mods :: "(toy_keymap, toy_state) wlr_keyboard" where
  "kb_mods = fst (wlr_keyboard_notify_modifiers toy_xkb kb_B 1 2 4 0)"

definition kb_failed :: "(toy_keymap, toy_state) wlr_keyboard" where
  "kb_failed = fst (wlr_keyboard_set_keymap toy_xkb kb_mods keymap_C)"

definition ops_to_kb_mods :: "toy_keymap keyboard_op list" where
  "ops_to_kb_mods = [Set_keymap keymap_B, Notify_modifiers 1 2 4 0]"

definition ops_to_kb_failed :: "toy_keymap keyboard_op list" where
  "ops_to_kb_failed = [Set_keymap keymap_B, Notify_modifiers 1 2 4 0, Set_keymap keymap_C]"

definition kb_held :: "(toy_keymap, toy_state) wlr_keyboard" where
  "kb_held = kb_init\<lparr>keycodes := [50, 30]\<rparr>"

definition kb_no_hook :: "(toy_keymap, toy_state) wlr_keyboard" where
  "kb_no_hook = kb_A\<lparr>impl := Some \<lparr>destroy = False, led_update = False\<rparr>\<rparr>"

definition presses_33 :: "wlr_event_keyboard_key list" where
  "presses_33 = map (\<lambda>n. press (of_nat n)) [0..<33]"

definition key_events_example :: "wlr_event_keyboard_key list" where
  "key_events_example = [press 50, press 30, press 50, release 30, release 7]"

definition kb_full :: "(toy_keymap, toy_state) wlr_keyboard" where
  "kb_full = kb_init\<lparr>keycodes := map of_nat [0..<32]\<rparr>"

section \<open>What the operations compute\<close>

text \<open>Evaluation rules for the concrete inputs.\<close>

lemmas toy_defs = toy_xkb_def toy_state_new_def toy_update_key_def toy_update_mask_def
  toy_serialize_mods_def toy_serialize_layout_def toy_led_index_is_active_def
  keymap_A_def keymap_B_def keymap_C_def keymap_D_def kb_init_def press_def release_def

lemmas kb_defs = wlr_keyboard_set_keymap_def set_keymap_err_def keymap_unref_def state_unref_def
  fill_led_indexes_def fill_mod_indexes_def replay_keys_def keyboard_modifier_update_def
  serialized_def keyboard_led_update_def led_mask_def wlr_keyboard_led_update_def
  wlr_keyboard_notify_modifiers_def wlr_keyboard_notify_key_def keyboard_key_update_def
  set_add_def set_remove_def wlr_keyboard_get_modifiers_def shift_left_1_def
  WLR_LED_COUNT_def WLR_MODIFIER_COUNT_def WLR_KEYBOARD_KEYS_CAP_def led_names_def mod_names_def
  XKB_MOD_INVALID_def XKB_LED_INVALID_def

lemma upt3: "[0..<3] = [0,1,2]" by (simp add: upt_rec)
lemma upt8: "[0..<8] = [0,1,2,3,4,5,6,7]" by (simp add: upt_rec)

lemma kb_A_eval:
  "kb_A = kb_init\<lparr>keymap_string := Some ''xkb_keymap { A };'', keymap_size := 18,
            keymap := Some keymap_A, xkb_state := Some st_A,
            led_indexes := [1, 0, 2], mod_indexes := [0, 1, 2, 3, 4, 5, 6, 7]\<rparr>"
  by (simp add: kb_A_def st_A_def toy_defs kb_defs upt3 upt8 Let_def)

subsection \<open>Modifier recomputation\<close>

lemma serialized_eq_iff:
  "serialized lib st = m \<longleftrightarrow>
     xkb_state_serialize_mods lib st XKB_STATE_MODS_DEPRESSED = depressed m \<and>
     xkb_state_serialize_mods lib st XKB_STATE_MODS_LATCHED = latched m \<and>
     xkb_state_serialize_mods lib st XKB_STATE_MODS_LOCKED = locked m \<and>
     xkb_state_serialize_layout lib st XKB_STATE_LAYOUT_EFFECTIVE = group m"
  by (cases m) (auto simp: serialized_def)

lemma keyboard_modifier_update_Some:
  assumes "xkb_state kb = Some st"
  shows "keyboard_modifier_update lib kb =
           (serialized lib st \<noteq> modifiers kb, kb\<lparr>modifiers := serialized lib st\<rparr>)"
proof (cases "serialized lib st = modifiers kb")
  case True
  then show ?thesis using assms
    by (simp add: keyboard_modifier_update_def Let_def)
next
  case False
  have "(modifiers kb)\<lparr>depressed := depressed (serialized lib st),
          latched := latched (serialized lib st), locked := locked (serialized lib st),
          group := group (serialized lib st)\<rparr> = serialized lib st"
    by (cases "modifiers kb") (simp add: serialized_def)
  moreover have "\<not> (depressed (serialized lib st) = depressed (modifiers kb) \<and>
      latched (serialized lib st) = latched (modifiers kb) \<and>
      locked (serialized lib st) = locked (modifiers kb) \<and>
      group (serialized lib st) = group (modifiers kb))"
    using False by (cases "modifiers kb") (auto simp: serialized_def)
  ultimately show ?thesis using assms False
    by (simp add: keyboard_modifier_update_def Let_def)
qed

lemma keyboard_modifier_update_None:
  "xkb_state kb = None \<Longrightarrow> keyboard_modifier_update lib kb = (False, kb)"
  by (simp add: keyboard_modifier_update_def)

lemma notify_modifiers_Some:
  assumes "xkb_state kb = Some st"
  shows "wlr_keyboard_notify_modifiers lib kb d l lk g =
     (let st' = xkb_state_update_mask lib st d l lk 0 0 g in
      (kb\<lparr>xkb_state := Some st', modifiers := serialized lib st'\<rparr>,
       (if serialized lib st' \<noteq> modifiers kb then [Signal_modifiers] else [])
       @ wlr_keyboard_led_update kb (led_mask lib st' (led_indexes kb))))"
  using assms
  by (simp add: wlr_keyboard_notify_modifiers_def keyboard_modifier_update_Some Let_def
      keyboard_led_update_def wlr_keyboard_led_update_def)


lemma set_add_length: "length vs \<le> cap \<Longrightarrow> length (set_add vs cap k) \<le> cap"
  by (simp add: set_add_def)

lemma set_remove_length: "length (set_remove vs cap k) \<le> length vs"
  by (simp add: set_remove_def length_remove1)

lemma keyboard_key_update_Inr:
  assumes "num_keycodes kb \<le> WLR_KEYBOARD_KEYS_CAP"
  shows "keyboard_key_update kb ev =
           Inr (kb\<lparr>keycodes := (case state ev of
                  WLR_KEY_PRESSED \<Rightarrow> set_add (keycodes kb) WLR_KEYBOARD_KEYS_CAP (keycode ev)
                | WLR_KEY_RELEASED \<Rightarrow> set_remove (keycodes kb) WLR_KEYBOARD_KEYS_CAP (keycode ev))\<rparr>)"
proof (cases "state ev")
  case WLR_KEY_RELEASED
  have "length (set_remove (keycodes kb) WLR_KEYBOARD_KEYS_CAP (keycode ev)) \<le> WLR_KEYBOARD_KEYS_CAP"
    using set_remove_length [of "keycodes kb" WLR_KEYBOARD_KEYS_CAP "keycode ev"] assms by linarith
  then show ?thesis using WLR_KEY_RELEASED by (simp add: keyboard_key_update_def)
next
  case WLR_KEY_PRESSED
  then show ?thesis using set_add_length [OF assms, of "keycode ev"]
    by (simp add: keyboard_key_update_def)
qed


lemma notify_key_Some:
  assumes "xkb_state kb = Some st" and "num_keycodes kb \<le> WLR_KEYBOARD_KEYS_CAP"
  shows "\<exists>kb' t.
     wlr_keyboard_notify_key lib kb ev = Inr (kb', t) \<and>
     (let st' = (if update_state ev
                 then xkb_state_update_key lib st (keycode ev + 8)
                        (if state ev = WLR_KEY_PRESSED then XKB_KEY_DOWN else XKB_KEY_UP)
                 else st)
      in xkb_state kb' = Some st' \<and> modifiers kb' = serialized lib st' \<and>
         impl kb' = impl kb \<and> led_indexes kb' = led_indexes kb \<and>
         t = [Signal_key ev]
             @ (if serialized lib st' \<noteq> modifiers kb then [Signal_modifiers] else [])
             @ wlr_keyboard_led_update kb (led_mask lib st' (led_indexes kb)))"
  using assms
  by (simp add: wlr_keyboard_notify_key_def keyboard_key_update_Inr keyboard_modifier_update_Some
      Let_def keyboard_led_update_def wlr_keyboard_led_update_def)



subsection \<open>Bit masks built by the loops\<close>

lemma bit_fold_or:
  fixes acc :: u32
  shows "bit (fold (\<lambda>i m. if P i then m OR push_bit i 1 else m) xs acc) j \<longleftrightarrow>
           bit acc j \<or> (j \<in> set xs \<and> P j \<and> j < 32)"
proof (induction xs arbitrary: acc)
  case Nil
  then show ?case by simp
next
  case (Cons x xs)
  show ?case
    by (auto simp: Cons.IH bit_or_iff bit_exp_iff dest: bit_imp_le_length)
qed

lemma and_push_bit_neq_0:
  fixes mask :: u32
  shows "mask AND push_bit n 1 \<noteq> 0 \<longleftrightarrow> bit mask n"
proof
  assume "mask AND push_bit n 1 \<noteq> 0"
  then obtain k where "bit (mask AND push_bit n 1) k"
    by (auto simp: bit_eq_iff)
  then show "bit mask n"
    by (auto simp: bit_and_iff bit_exp_iff)
next
  assume b: "bit mask n"
  then have "n < 32" by (auto dest: bit_imp_le_length)
  with b have bn: "bit (mask AND push_bit n 1) n"
    by (simp add: bit_and_iff bit_exp_iff)
  show "mask AND push_bit n 1 \<noteq> 0"
  proof
    assume "mask AND push_bit n 1 = 0"
    with bn show False by simp
  qed
qed

lemma led_mask_bit:
  "bit (led_mask lib st idxs) i \<longleftrightarrow>
     i < WLR_LED_COUNT \<and> xkb_state_led_index_is_active lib st (idxs ! i) \<noteq> 0"
  by (auto simp: led_mask_def bit_fold_or WLR_LED_COUNT_def)

lemma get_modifiers_bit:
  "bit (wlr_keyboard_get_modifiers kb) i \<longleftrightarrow>
     i < WLR_MODIFIER_COUNT \<and> mod_indexes kb ! i \<noteq> XKB_MOD_INVALID \<and>
     bit (depressed (modifiers kb) OR latched (modifiers kb)) (unat (mod_indexes kb ! i) mod 32)"
  using and_push_bit_neq_0 [of "depressed (modifiers kb) OR latched (modifiers kb)"
      "unat (mod_indexes kb ! i) mod 32"]
  by (auto simp: wlr_keyboard_get_modifiers_def shift_left_1_def Let_def bit_fold_or
      WLR_MODIFIER_COUNT_def simp del: push_bit_of_1)

lemma get_modifiers_bit_defined:
  assumes "mod_table_defined kb"
  shows "bit (wlr_keyboard_get_modifiers kb) i \<longleftrightarrow>
     i < WLR_MODIFIER_COUNT \<and> mod_indexes kb ! i \<noteq> XKB_MOD_INVALID \<and>
     bit (depressed (modifiers kb) OR latched (modifiers kb)) (unat (mod_indexes kb ! i))"
proof (cases "i < WLR_MODIFIER_COUNT \<and> mod_indexes kb ! i \<noteq> XKB_MOD_INVALID")
  case True
  with assms have "mod_index_defined (mod_indexes kb ! i)"
    by (simp add: mod_table_defined_def list_all_length)
  with True have "unat (mod_indexes kb ! i) < 32"
    by (simp add: mod_index_defined_def)
  then show ?thesis
    by (simp add: get_modifiers_bit)
next
  case False
  then show ?thesis
    by (auto simp: get_modifiers_bit)
qed

lemma get_modifiers_ignores_locked:
  "wlr_keyboard_get_modifiers (kb\<lparr>modifiers := (modifiers kb)\<lparr>locked := x\<rparr>\<rparr>)
     = wlr_keyboard_get_modifiers kb"
  by (simp add: wlr_keyboard_get_modifiers_def)

subsection \<open>The three outcomes of \<open>wlr_keyboard_set_keymap\<close>\<close>

lemma fill_led_indexes_full:
  assumes "length tbl = WLR_LED_COUNT"
  shows "fill_led_indexes lib km tbl = map (xkb_map_led_get_index lib km) led_names"
proof -
  obtain a b c where "tbl = [a, b, c]"
    using assms by (auto simp: WLR_LED_COUNT_def numeral_eq_Suc length_Suc_conv)
  then show ?thesis
    by (simp add: fill_led_indexes_def WLR_LED_COUNT_def upt3 led_names_def)
qed

lemma fill_mod_indexes_full:
  assumes "length tbl = WLR_MODIFIER_COUNT"
  shows "fill_mod_indexes lib km tbl = map (xkb_map_mod_get_index lib km) mod_names"
proof -
  obtain a b c d e f g h where "tbl = [a, b, c, d, e, f, g, h]"
    using assms by (auto simp: WLR_MODIFIER_COUNT_def numeral_eq_Suc length_Suc_conv)
  then show ?thesis
    by (simp add: fill_mod_indexes_def WLR_MODIFIER_COUNT_def upt8 mod_names_def)
qed


lemma set_keymap_state_failure:
  assumes "xkb_state_new lib km = None"
  shows "wlr_keyboard_set_keymap lib kb km =
     (kb\<lparr>keymap := None, xkb_state := None, keymap_string := None\<rparr>,
      keymap_unref (keymap kb) @ [Keymap_ref km] @ state_unref (xkb_state kb)
      @ [Log_error ''Failed to create XKB state'', Keymap_unref km])"
  using assms
  by (simp add: wlr_keyboard_set_keymap_def set_keymap_err_def state_unref_def Let_def)

lemma set_keymap_string_failure:
  assumes "xkb_state_new lib km = Some st" and "xkb_keymap_get_as_string lib km = None"
  shows "wlr_keyboard_set_keymap lib kb km =
     (kb\<lparr>keymap := None, xkb_state := None, keymap_string := None,
         led_indexes := fill_led_indexes lib km (led_indexes kb),
         mod_indexes := fill_mod_indexes lib km (mod_indexes kb)\<rparr>,
      keymap_unref (keymap kb) @ [Keymap_ref km] @ state_unref (xkb_state kb)
      @ [Log_error ''Failed to get string version of keymap'', State_unref, Keymap_unref km])"
  using assms
  by (simp add: wlr_keyboard_set_keymap_def set_keymap_err_def state_unref_def Let_def)

lemma set_keymap_success:
  assumes "xkb_state_new lib km = Some st" and "xkb_keymap_get_as_string lib km = Some s"
  shows "wlr_keyboard_set_keymap lib kb km =
     (kb\<lparr>keymap := Some km, xkb_state := Some (replay_keys lib (keycodes kb) st),
         keymap_string := Some s, keymap_size := length s + 1,
         led_indexes := fill_led_indexes lib km (led_indexes kb),
         mod_indexes := fill_mod_indexes lib km (mod_indexes kb),
         modifiers := serialized lib (replay_keys lib (keycodes kb) st)\<rparr>,
      keymap_unref (keymap kb) @ [Keymap_ref km] @ state_unref (xkb_state kb)
      @ [Signal_keymap])"
  using assms
  by (simp add: wlr_keyboard_set_keymap_def keyboard_modifier_update_Some Let_def)

lemma filter_signal_unref [simp]:
  "filter is_signal (keymap_unref k) = []" "filter is_signal (state_unref x) = []"
  "filter is_led_push (keymap_unref k) = []" "filter is_led_push (state_unref x) = []"
  by (simp_all add: keymap_unref_def state_unref_def split: option.splits)


lemma count_ref_unref [simp]:
  "count_list (keymap_unref k) (Keymap_ref km) = 0"
  "count_list (state_unref x) (Keymap_ref km) = 0"
  "count_list (keymap_unref k) Signal_keymap = 0"
  "count_list (state_unref x) Signal_keymap = 0"
  by (simp_all add: keymap_unref_def state_unref_def split: option.splits)

lemma unref_no_modifiers_signal [simp]:
  "Signal_modifiers \<notin> set (keymap_unref k)" "Signal_modifiers \<notin> set (state_unref x)"
  by (simp_all add: keymap_unref_def state_unref_def split: option.splits)

lemma kb_B_eval:
  "kb_B = kb_init\<lparr>keymap_string := Some ''xkb_keymap { B };'', keymap_size := 18,
            keymap := Some keymap_B, xkb_state := Some st_B,
            led_indexes := [0, 1, 0xffffffff],
            mod_indexes := [1, 2, 0, 3, 4, 5, 6, 0xffffffff]\<rparr>"
  by (simp add: kb_B_def st_B_def toy_defs kb_defs upt3 upt8 Let_def)

lemma toy_tables_eval:
  "map (xkb_map_led_get_index toy_xkb keymap_A) led_names = [1, 0, 2]"
  "map (xkb_map_mod_get_index toy_xkb keymap_A) mod_names = [0, 1, 2, 3, 4, 5, 6, 7]"
  "map (xkb_map_led_get_index toy_xkb keymap_C) led_names = [0, 1, 0xffffffff]"
  "map (xkb_map_mod_get_index toy_xkb keymap_C) mod_names = [1, 2, 0, 3, 4, 5, 6, 0xffffffff]"
  "map (xkb_map_led_get_index toy_xkb keymap_D) led_names = [0, 1, 0xffffffff]"
  "map (xkb_map_mod_get_index toy_xkb keymap_D) mod_names = [1, 2, 0, 3, 4, 5, 6, 0xffffffff]"
  by (simp_all add: toy_defs led_names_def mod_names_def)

lemma toy_new_eval:
  "xkb_state_new toy_xkb keymap_A = Some st_A"
  "xkb_state_new toy_xkb keymap_B = Some st_B"
  "xkb_state_new toy_xkb keymap_C = None"
  "xkb_state_new toy_xkb keymap_D = Some (st_B\<lparr>ts_keymap := keymap_D\<rparr>)"
  "xkb_keymap_get_as_string toy_xkb keymap_A = Some ''xkb_keymap { A };''"
  "xkb_keymap_get_as_string toy_xkb keymap_B = Some ''xkb_keymap { B };''"
  "xkb_keymap_get_as_string toy_xkb keymap_D = None"
  by (simp_all add: toy_defs st_A_def st_B_def)

lemma kb_mods_eval:
  "kb_mods = kb_B\<lparr>xkb_state := Some (st_B\<lparr>ts_depressed := 1, ts_latched := 2, ts_locked := 4\<rparr>),
               modifiers := \<lparr>depressed = 1, latched = 2, locked = 4, group = 0\<rparr>\<rparr>"
proof -
  have s: "xkb_state kb_B = Some st_B"
    by (simp add: kb_B_eval)
  show ?thesis
    unfolding kb_mods_def notify_modifiers_Some [OF s]
    by (simp add: Let_def serialized_def st_B_def toy_defs)
qed

lemma kb_held_reached:
  "wlr_keyboard_notify_key toy_xkb kb_init (press 50)
     = Inr (kb_init\<lparr>keycodes := [50]\<rparr>, [Signal_key (press 50)])"
  "wlr_keyboard_notify_key toy_xkb (kb_init\<lparr>keycodes := [50]\<rparr>) (press 30)
     = Inr (kb_held, [Signal_key (press 30)])"
  by (simp_all add: wlr_keyboard_notify_key_def keyboard_key_update_def set_add_def
      WLR_KEYBOARD_KEYS_CAP_def kb_held_def kb_init_def press_def)

section \<open>Modifier notifications\<close>




section \<open>Replacing the keymap\<close>

text \<open>
  Claim C3, as stated, fails. The claim says that every call of \<open>wlr_keyboard_set_keymap\<close>,
  failed ones included, recomputes both index tables from the new keymap. When
  \<open>xkb_state_new\<close> fails, the code jumps to \<open>err\<close> before the two loops: on a keyboard
  that holds keymap A, a call with keymap C leaves the tables of keymap A in place, and
  they differ from what keymap C would give.
\<close>

theorem failed_state_construction_keeps_stale_tables:
  "keymap kb_A = Some keymap_A \<and>
   led_indexes kb_A = [1, 0, 2] \<and>
   mod_indexes kb_A = [0, 1, 2, 3, 4, 5, 6, 7] \<and>
   xkb_state_new toy_xkb keymap_C = None \<and>
   led_indexes (fst (wlr_keyboard_set_keymap toy_xkb kb_A keymap_C)) = [1, 0, 2] \<and>
   map (xkb_map_led_get_index toy_xkb keymap_C) led_names = [0, 1, 0xffffffff] \<and>
   led_indexes (fst (wlr_keyboard_set_keymap toy_xkb kb_A keymap_C))
     \<noteq> map (xkb_map_led_get_index toy_xkb keymap_C) led_names \<and>
   mod_indexes (fst (wlr_keyboard_set_keymap toy_xkb kb_A keymap_C)) = [0, 1, 2, 3, 4, 5, 6, 7] \<and>
   map (xkb_map_mod_get_index toy_xkb keymap_C) mod_names = [1, 2, 0, 3, 4, 5, 6, 0xffffffff] \<and>
   mod_indexes (fst (wlr_keyboard_set_keymap toy_xkb kb_A keymap_C))
     \<noteq> map (xkb_map_mod_get_index toy_xkb keymap_C) mod_names"
  by (simp add: set_keymap_state_failure toy_new_eval toy_tables_eval kb_A_eval kb_init_def)

text \<open>
  Claim C3, amended. When the translation state is constructed (every successful call,
  and a call that fails later at serialization), both index tables are recomputed in
  full from the new keymap, one entry per name of \<open>led_names\<close> and \<open>mod_names\<close>. When the
  construction fails, both tables are exactly as before the call. No call leaves a table
  partially updated.
\<close>

theorem index_tables_recomputed_or_untouched:
  assumes "length (led_indexes kb) = WLR_LED_COUNT"
    and "length (mod_indexes kb) = WLR_MODIFIER_COUNT"
  shows "case xkb_state_new lib km of
           Some st \<Rightarrow>
             led_indexes (fst (wlr_keyboard_set_keymap lib kb km))
               = map (xkb_map_led_get_index lib km) led_names \<and>
             mod_indexes (fst (wlr_keyboard_set_keymap lib kb km))
               = map (xkb_map_mod_get_index lib km) mod_names
         | None \<Rightarrow>
             led_indexes (fst (wlr_keyboard_set_keymap lib kb km)) = led_indexes kb \<and>
             mod_indexes (fst (wlr_keyboard_set_keymap lib kb km)) = mod_indexes kb"
proof (cases "xkb_state_new lib km")
  case None
  then show ?thesis by (simp add: set_keymap_state_failure)
next
  case (Some st)
  show ?thesis
  proof (cases "xkb_keymap_get_as_string lib km")
    case None
    with Some assms show ?thesis
      by (simp add: set_keymap_string_failure fill_led_indexes_full fill_mod_indexes_full)
  next
    case (Some s)
    with \<open>xkb_state_new lib km = Some st\<close> assms show ?thesis
      by (simp add: set_keymap_success fill_led_indexes_full fill_mod_indexes_full)
  qed
qed

theorem index_tables_recomputed_or_untouched_witness:
  "length (led_indexes kb_A) = WLR_LED_COUNT \<and>
   length (mod_indexes kb_A) = WLR_MODIFIER_COUNT \<and>
   led_indexes (fst (wlr_keyboard_set_keymap toy_xkb kb_A keymap_B)) = [0, 1, 0xffffffff] \<and>
   mod_indexes (fst (wlr_keyboard_set_keymap toy_xkb kb_A keymap_B))
     = [1, 2, 0, 3, 4, 5, 6, 0xffffffff] \<and>
   led_indexes (fst (wlr_keyboard_set_keymap toy_xkb kb_A keymap_D)) = [0, 1, 0xffffffff] \<and>
   mod_indexes (fst (wlr_keyboard_set_keymap toy_xkb kb_A keymap_D))
     = [1, 2, 0, 3, 4, 5, 6, 0xffffffff] \<and>
   led_indexes (fst (wlr_keyboard_set_keymap toy_xkb kb_A keymap_C)) = led_indexes kb_A \<and>
   mod_indexes (fst (wlr_keyboard_set_keymap toy_xkb kb_A keymap_C)) = mod_indexes kb_A"
proof -
  have h1: "length (led_indexes kb_A) = WLR_LED_COUNT"
    by (simp add: kb_A_eval WLR_LED_COUNT_def)
  have h2: "length (mod_indexes kb_A) = WLR_MODIFIER_COUNT"
    by (simp add: kb_A_eval WLR_MODIFIER_COUNT_def)
  have tB: "map (xkb_map_led_get_index toy_xkb keymap_B) led_names = [0, 1, 0xffffffff]"
    "map (xkb_map_mod_get_index toy_xkb keymap_B) mod_names = [1, 2, 0, 3, 4, 5, 6, 0xffffffff]"
    by (simp_all add: toy_defs led_names_def mod_names_def)
  from index_tables_recomputed_or_untouched [OF h1 h2, of toy_xkb keymap_B]
    index_tables_recomputed_or_untouched [OF h1 h2, of toy_xkb keymap_D]
    index_tables_recomputed_or_untouched [OF h1 h2, of toy_xkb keymap_C]
    h1 h2
  show ?thesis
    by (simp add: toy_new_eval toy_tables_eval tB)
qed


text \<open>
  Claim C4. When \<open>xkb_state_new\<close> or \<open>xkb_keymap_get_as_string\<close> fails, the keyboard comes
  out with \<open>keymap\<close>, \<open>xkb_state\<close> and \<open>keymap_string\<close> all \<open>NULL\<close>; the call emits no
  signal and pushes no indicator mask; the reference it took on the new keymap (exactly
  one) is given back by the \<open>xkb_keymap_unref\<close> that ends the call.
\<close>

theorem failed_set_keymap_rolls_back:
  assumes "xkb_state_new lib km = None \<or> xkb_keymap_get_as_string lib km = None"
  shows "keymap (fst (wlr_keyboard_set_keymap lib kb km)) = None \<and>
         xkb_state (fst (wlr_keyboard_set_keymap lib kb km)) = None \<and>
         keymap_string (fst (wlr_keyboard_set_keymap lib kb km)) = None \<and>
         filter is_signal (snd (wlr_keyboard_set_keymap lib kb km)) = [] \<and>
         filter is_led_push (snd (wlr_keyboard_set_keymap lib kb km)) = [] \<and>
         count_list (snd (wlr_keyboard_set_keymap lib kb km)) (Keymap_ref km) = 1 \<and>
         last (snd (wlr_keyboard_set_keymap lib kb km)) = Keymap_unref km"
proof (cases "xkb_state_new lib km")
  case None
  then show ?thesis by (simp add: set_keymap_state_failure)
next
  case (Some st)
  with assms have "xkb_keymap_get_as_string lib km = None" by simp
  with Some show ?thesis by (simp add: set_keymap_string_failure)
qed

theorem failed_set_keymap_rolls_back_witness:
  "xkb_state_new toy_xkb keymap_C = None \<and>
   xkb_keymap_get_as_string toy_xkb keymap_D = None \<and>
   keymap kb_A = Some keymap_A \<and> xkb_state kb_A = Some st_A \<and>
   keymap (fst (wlr_keyboard_set_keymap toy_xkb kb_A keymap_C)) = None \<and>
   xkb_state (fst (wlr_keyboard_set_keymap toy_xkb kb_A keymap_C)) = None \<and>
   keymap_string (fst (wlr_keyboard_set_keymap toy_xkb kb_A keymap_C)) = None \<and>
   filter is_signal (snd (wlr_keyboard_set_keymap toy_xkb kb_A keymap_C)) = [] \<and>
   last (snd (wlr_keyboard_set_keymap toy_xkb kb_A keymap_C)) = Keymap_unref keymap_C \<and>
   keymap (fst (wlr_keyboard_set_keymap toy_xkb kb_A keymap_D)) = None \<and>
   xkb_state (fst (wlr_keyboard_set_keymap toy_xkb kb_A keymap_D)) = None \<and>
   keymap_string (fst (wlr_keyboard_set_keymap toy_xkb kb_A keymap_D)) = None \<and>
   filter is_signal (snd (wlr_keyboard_set_keymap toy_xkb kb_A keymap_D)) = [] \<and>
   last (snd (wlr_keyboard_set_keymap toy_xkb kb_A keymap_D)) = Keymap_unref keymap_D"
proof -
  have hC: "xkb_state_new toy_xkb keymap_C = None \<or> xkb_keymap_get_as_string toy_xkb keymap_C = None"
    by (simp add: toy_new_eval)
  have hD: "xkb_state_new toy_xkb keymap_D = None \<or> xkb_keymap_get_as_string toy_xkb keymap_D = None"
    by (simp add: toy_new_eval)
  have k: "keymap kb_A = Some keymap_A \<and> xkb_state kb_A = Some st_A"
    by (simp add: kb_A_eval)
  from failed_set_keymap_rolls_back [OF hC, of kb_A] failed_set_keymap_rolls_back [OF hD, of kb_A] k
  show ?thesis
    by (simp add: toy_new_eval)
qed

text \<open>
  Claim C5. A call of \<open>wlr_keyboard_set_keymap\<close> in which the state construction and the
  serialization both succeed installs the keymap and emits the keymap signal exactly
  once, whatever the recomputed modifier masks are. In the instance below they are equal
  to the stored ones.
\<close>

theorem successful_set_keymap_emits_keymap_once:
  assumes "xkb_state_new lib km = Some st" and "xkb_keymap_get_as_string lib km = Some s"
  shows "keymap (fst (wlr_keyboard_set_keymap lib kb km)) = Some km \<and>
         count_list (snd (wlr_keyboard_set_keymap lib kb km)) Signal_keymap = 1"
  using assms by (simp add: set_keymap_success)

theorem successful_set_keymap_emits_keymap_once_witness:
  "xkb_state_new toy_xkb keymap_A = Some st_A \<and>
   xkb_keymap_get_as_string toy_xkb keymap_A = Some ''xkb_keymap { A };'' \<and>
   modifiers (fst (wlr_keyboard_set_keymap toy_xkb kb_B keymap_A)) = modifiers kb_B \<and>
   keymap (fst (wlr_keyboard_set_keymap toy_xkb kb_B keymap_A)) = Some keymap_A \<and>
   count_list (snd (wlr_keyboard_set_keymap toy_xkb kb_B keymap_A)) Signal_keymap = 1"
proof -
  have h1: "xkb_state_new toy_xkb keymap_A = Some st_A"
    and h2: "xkb_keymap_get_as_string toy_xkb keymap_A = Some ''xkb_keymap { A };''"
    by (simp_all add: toy_new_eval)
  have m: "modifiers (fst (wlr_keyboard_set_keymap toy_xkb kb_B keymap_A)) = modifiers kb_B"
    unfolding set_keymap_success [OF h1 h2]
    by (simp add: kb_B_eval kb_init_def replay_keys_def serialized_def st_A_def toy_defs)
  from successful_set_keymap_emits_keymap_once [OF h1 h2, of kb_B] h1 h2 m
  show ?thesis by simp
qed

text \<open>
  Claim C10. A successful \<open>wlr_keyboard_set_keymap\<close> never emits the modifiers signal: the
  result of \<open>keyboard_modifier_update\<close> is dropped there, and the only signal of the call
  is the keymap signal. In the instance below the replay of a held Shift key changes the
  depressed mask from 0 to 1, and still no modifiers signal is emitted.
\<close>

theorem successful_set_keymap_no_modifiers_signal:
  assumes "xkb_state_new lib km = Some st" and "xkb_keymap_get_as_string lib km = Some s"
  shows "Signal_modifiers \<notin> set (snd (wlr_keyboard_set_keymap lib kb km)) \<and>
         filter is_signal (snd (wlr_keyboard_set_keymap lib kb km)) = [Signal_keymap]"
  using assms by (simp add: set_keymap_success)

theorem successful_set_keymap_no_modifiers_signal_witness:
  "xkb_state_new toy_xkb keymap_A = Some st_A \<and>
   xkb_keymap_get_as_string toy_xkb keymap_A = Some ''xkb_keymap { A };'' \<and>
   depressed (modifiers kb_held) = 0 \<and>
   depressed (modifiers (fst (wlr_keyboard_set_keymap toy_xkb kb_held keymap_A))) = 1 \<and>
   Signal_modifiers \<notin> set (snd (wlr_keyboard_set_keymap toy_xkb kb_held keymap_A)) \<and>
   filter is_signal (snd (wlr_keyboard_set_keymap toy_xkb kb_held keymap_A)) = [Signal_keymap]"
proof -
  have h1: "xkb_state_new toy_xkb keymap_A = Some st_A"
    and h2: "xkb_keymap_get_as_string toy_xkb keymap_A = Some ''xkb_keymap { A };''"
    by (simp_all add: toy_new_eval)
  have m: "depressed (modifiers kb_held) = 0 \<and>
     depressed (modifiers (fst (wlr_keyboard_set_keymap toy_xkb kb_held keymap_A))) = 1"
    unfolding set_keymap_success [OF h1 h2]
    by (simp add: kb_held_def kb_init_def replay_keys_def serialized_def st_A_def toy_defs)
  from successful_set_keymap_no_modifiers_signal [OF h1 h2, of kb_held] h1 h2 m
  show ?thesis by simp
qed

text \<open>
  Claim C6. After a successful \<open>wlr_keyboard_set_keymap\<close> the translation state is the fresh
  state of the new keymap with every held keycode, offset by 8, replayed into it as a
  key-down in the order of the key set, and the stored modifier masks are the ones
  serialized from that replayed state. Consequently, when the new keymap defines Shift
  and the replayed state has the Shift bit depressed, \<open>wlr_keyboard_get_modifiers\<close> reports
  bit 0. In the instance below the key set is \<open>{50, 30}\<close>, keymap A puts Shift on
  keycode 50 and nothing on keycode 30.
\<close>

theorem set_keymap_replays_held_keys:
  assumes "xkb_state_new lib km = Some st0" and "xkb_keymap_get_as_string lib km = Some s"
    and "length (mod_indexes kb) = WLR_MODIFIER_COUNT"
  shows "xkb_state (fst (wlr_keyboard_set_keymap lib kb km))
           = Some (fold (\<lambda>k st. xkb_state_update_key lib st (k + 8) XKB_KEY_DOWN) (keycodes kb) st0) \<and>
         modifiers (fst (wlr_keyboard_set_keymap lib kb km))
           = serialized lib
               (fold (\<lambda>k st. xkb_state_update_key lib st (k + 8) XKB_KEY_DOWN) (keycodes kb) st0) \<and>
         (xkb_map_mod_get_index lib km ''Shift'' \<noteq> XKB_MOD_INVALID \<and>
          bit (xkb_state_serialize_mods lib
                 (fold (\<lambda>k st. xkb_state_update_key lib st (k + 8) XKB_KEY_DOWN) (keycodes kb) st0)
                 XKB_STATE_MODS_DEPRESSED)
              (unat (xkb_map_mod_get_index lib km ''Shift'')) \<longrightarrow>
          bit (wlr_keyboard_get_modifiers (fst (wlr_keyboard_set_keymap lib kb km))) 0)"
proof -
  let ?kb' = "fst (wlr_keyboard_set_keymap lib kb km)"
  let ?st' = "fold (\<lambda>k st. xkb_state_update_key lib st (k + 8) XKB_KEY_DOWN) (keycodes kb) st0"
  let ?idx = "xkb_map_mod_get_index lib km ''Shift''"
  have s: "xkb_state ?kb' = Some ?st'" and m: "modifiers ?kb' = serialized lib ?st'"
    using assms(1,2) by (simp_all add: set_keymap_success replay_keys_def)
  have t: "mod_indexes ?kb' ! 0 = ?idx"
    using assms by (simp add: set_keymap_success fill_mod_indexes_full mod_names_def)
  have "bit (wlr_keyboard_get_modifiers ?kb') 0"
    if v: "?idx \<noteq> XKB_MOD_INVALID"
      and b: "bit (xkb_state_serialize_mods lib ?st' XKB_STATE_MODS_DEPRESSED) (unat ?idx)"
  proof -
    from b have "unat ?idx < 32"
      by (auto dest: bit_imp_le_length)
    then have "unat ?idx mod 32 = unat ?idx"
      by simp
    with v b t m show ?thesis
      by (simp add: get_modifiers_bit WLR_MODIFIER_COUNT_def bit_or_iff serialized_def)
  qed
  with s m show ?thesis
    by simp
qed

theorem set_keymap_replays_held_keys_witness:
  "xkb_state_new toy_xkb keymap_A = Some st_A \<and>
   xkb_keymap_get_as_string toy_xkb keymap_A = Some ''xkb_keymap { A };'' \<and>
   length (mod_indexes kb_held) = WLR_MODIFIER_COUNT \<and>
   keycodes kb_held = [50, 30] \<and>
   xkb_map_mod_get_index toy_xkb keymap_A ''Shift'' = 0 \<and>
   xkb_state (fst (wlr_keyboard_set_keymap toy_xkb kb_held keymap_A))
     = Some (st_A\<lparr>ts_depressed := 1\<rparr>) \<and>
   bit (wlr_keyboard_get_modifiers (fst (wlr_keyboard_set_keymap toy_xkb kb_held keymap_A))) 0"
proof -
  have h1: "xkb_state_new toy_xkb keymap_A = Some st_A"
    and h2: "xkb_keymap_get_as_string toy_xkb keymap_A = Some ''xkb_keymap { A };''"
    by (simp_all add: toy_new_eval)
  have h3: "length (mod_indexes kb_held) = WLR_MODIFIER_COUNT"
    by (simp add: kb_held_def kb_init_def WLR_MODIFIER_COUNT_def)
  have k: "keycodes kb_held = [50, 30]"
    by (simp add: kb_held_def)
  have i: "xkb_map_mod_get_index toy_xkb keymap_A ''Shift'' = 0"
    by (simp add: toy_defs)
  have r: "xkb_state_update_key toy_xkb (xkb_state_update_key toy_xkb st_A 58 XKB_KEY_DOWN)
               38 XKB_KEY_DOWN = st_A\<lparr>ts_depressed := 1\<rparr>"
    by (simp add: toy_defs st_A_def)
  have b: "bit (xkb_state_serialize_mods toy_xkb (st_A\<lparr>ts_depressed := 1\<rparr>)
                 XKB_STATE_MODS_DEPRESSED) 0"
    by (simp add: toy_defs)
  from set_keymap_replays_held_keys [OF h1 h2 h3] h1 h2 h3 k i r b
  show ?thesis
    by (simp add: XKB_MOD_INVALID_def)
qed


section \<open>The effective modifiers\<close>

subsection \<open>What the operations keep\<close>

lemma notify_key_keeps:
  assumes "num_keycodes kb \<le> WLR_KEYBOARD_KEYS_CAP"
  shows "\<exists>kb' t. wlr_keyboard_notify_key lib kb ev = Inr (kb', t) \<and>
           keymap kb' = keymap kb \<and> mod_indexes kb' = mod_indexes kb \<and>
           led_indexes kb' = led_indexes kb \<and> num_keycodes kb' \<le> WLR_KEYBOARD_KEYS_CAP"
proof -
  define ks where "ks = (case state ev of
      WLR_KEY_PRESSED \<Rightarrow> set_add (keycodes kb) WLR_KEYBOARD_KEYS_CAP (keycode ev)
    | WLR_KEY_RELEASED \<Rightarrow> set_remove (keycodes kb) WLR_KEYBOARD_KEYS_CAP (keycode ev))"
  have step: "keyboard_key_update kb ev = Inr (kb\<lparr>keycodes := ks\<rparr>)"
    unfolding ks_def by (rule keyboard_key_update_Inr [OF assms])
  have l: "length ks \<le> WLR_KEYBOARD_KEYS_CAP"
    using step by (auto simp: keyboard_key_update_def Let_def split: if_splits)
  show ?thesis
  proof (cases "xkb_state kb")
    case None
    with step l show ?thesis
      by (simp add: wlr_keyboard_notify_key_def)
  next
    case (Some st)
    with step l show ?thesis
      by (simp add: wlr_keyboard_notify_key_def keyboard_modifier_update_Some Let_def)
  qed
qed

lemma notify_modifiers_keeps:
  "keymap (fst (wlr_keyboard_notify_modifiers lib kb d l lk g)) = keymap kb \<and>
   mod_indexes (fst (wlr_keyboard_notify_modifiers lib kb d l lk g)) = mod_indexes kb \<and>
   led_indexes (fst (wlr_keyboard_notify_modifiers lib kb d l lk g)) = led_indexes kb \<and>
   keycodes (fst (wlr_keyboard_notify_modifiers lib kb d l lk g)) = keycodes kb"
proof (cases "xkb_state kb")
  case None
  then show ?thesis by (simp add: wlr_keyboard_notify_modifiers_def)
next
  case (Some st)
  then show ?thesis by (simp add: notify_modifiers_Some Let_def)
qed

lemma set_keymap_keeps:
  assumes "kb_invariant lib kb"
  shows "kb_invariant lib (fst (wlr_keyboard_set_keymap lib kb km))"
proof (cases "xkb_state_new lib km")
  case None
  with assms show ?thesis
    by (simp add: set_keymap_state_failure kb_invariant_def table_of_keymap_def)
next
  case (Some st)
  from assms have len: "length (led_indexes kb) = WLR_LED_COUNT"
    "length (mod_indexes kb) = WLR_MODIFIER_COUNT"
    by (simp_all add: kb_invariant_def)
  have n: "length led_names = WLR_LED_COUNT" "length mod_names = WLR_MODIFIER_COUNT"
    by (simp_all add: led_names_def mod_names_def WLR_LED_COUNT_def WLR_MODIFIER_COUNT_def)
  show ?thesis
  proof (cases "xkb_keymap_get_as_string lib km")
    case None
    with Some assms len n show ?thesis
      by (simp add: set_keymap_string_failure kb_invariant_def table_of_keymap_def
          fill_led_indexes_full fill_mod_indexes_full)
  next
    case (Some s)
    with \<open>xkb_state_new lib km = Some st\<close> assms len n show ?thesis
      by (simp add: set_keymap_success kb_invariant_def table_of_keymap_def
          fill_led_indexes_full fill_mod_indexes_full)
  qed
qed

lemma apply_op_keeps:
  assumes "kb_invariant lib kb"
  shows "\<exists>kb'. apply_op lib kb x = Inr kb' \<and> kb_invariant lib kb'"
proof (cases x)
  case (Notify_key ev)
  from assms have "num_keycodes kb \<le> WLR_KEYBOARD_KEYS_CAP"
    by (simp add: kb_invariant_def)
  from notify_key_keeps [OF this, of lib ev] obtain kb' t where
    "wlr_keyboard_notify_key lib kb ev = Inr (kb', t)" "keymap kb' = keymap kb"
    "mod_indexes kb' = mod_indexes kb" "led_indexes kb' = led_indexes kb"
    "num_keycodes kb' \<le> WLR_KEYBOARD_KEYS_CAP"
    by blast
  with assms Notify_key show ?thesis
    by (auto simp: kb_invariant_def table_of_keymap_def split: option.splits)
next
  case (Notify_modifiers d l lk g)
  with assms notify_modifiers_keeps [of lib kb d l lk g] show ?thesis
    by (auto simp: kb_invariant_def table_of_keymap_def split: option.splits)
next
  case (Set_keymap km)
  with set_keymap_keeps [OF assms, of km] show ?thesis
    by simp
qed

lemma run_ops_keeps:
  assumes "kb_invariant lib kb"
  shows "\<exists>kb'. run_ops lib kb xs = Inr kb' \<and> kb_invariant lib kb'"
  using assms
proof (induction xs arbitrary: kb)
  case Nil
  then show ?case by simp
next
  case (Cons x xs)
  from apply_op_keeps [OF Cons.prems, of x] obtain kb1 where
    a: "apply_op lib kb x = Inr kb1" and i: "kb_invariant lib kb1"
    by blast
  from Cons.IH [OF i] a show ?case
    by simp
qed

lemma get_modifiers_spec:
  assumes "keymap kb = Some km" and "table_of_keymap lib kb" and "mod_table_defined kb"
  shows "bit (wlr_keyboard_get_modifiers kb) i \<longleftrightarrow> spec_effective_modifier lib kb i"
proof (cases "i < WLR_MODIFIER_COUNT")
  case True
  from assms(1,2) have t: "mod_indexes kb = map (xkb_map_mod_get_index lib km) mod_names"
    by (simp add: table_of_keymap_def)
  have "length mod_names = WLR_MODIFIER_COUNT"
    by (simp add: mod_names_def WLR_MODIFIER_COUNT_def)
  with True t have "mod_indexes kb ! i = xkb_map_mod_get_index lib km (mod_names ! i)"
    by simp
  with True assms(1) show ?thesis
    by (simp add: get_modifiers_bit_defined [OF assms(3)] spec_effective_modifier_def)
next
  case False
  with assms(1) show ?thesis
    by (simp add: get_modifiers_bit spec_effective_modifier_def)
qed

subsection \<open>Evaluation of the reached states\<close>

lemma kb_failed_eval:
  "kb_failed = kb_mods\<lparr>keymap := None, xkb_state := None, keymap_string := None\<rparr>"
  by (simp add: kb_failed_def set_keymap_state_failure toy_new_eval)

lemma run_ops_eval:
  "run_ops toy_xkb kb_init ops_to_kb_mods = Inr kb_mods"
  "run_ops toy_xkb kb_init ops_to_kb_failed = Inr kb_failed"
  by (simp_all add: ops_to_kb_mods_def ops_to_kb_failed_def kb_mods_def kb_B_def kb_failed_def)

lemma get_modifiers_kb_mods:
  "wlr_keyboard_get_modifiers kb_mods = 5" "wlr_keyboard_get_modifiers kb_failed = 5"
  by (simp_all add: kb_failed_eval kb_mods_eval kb_B_eval wlr_keyboard_get_modifiers_def
      shift_left_1_def WLR_MODIFIER_COUNT_def XKB_MOD_INVALID_def upt8)

subsection \<open>The claim\<close>

text \<open>
  Claim C7, as stated, fails. The claim speaks of every state and of the index being
  present in the current keymap. \<open>wlr_keyboard_get_modifiers\<close> never looks at the keymap:
  it reads the stored table and the stored masks, and the \<open>err\<close> path of
  \<open>wlr_keyboard_set_keymap\<close> clears neither. With keymap B loaded and the masks 1, 2, 4, 0
  injected, a swap whose state construction fails leaves a keyboard without a keymap
  that still reports 5, Shift and Control, where no index is present in any current
  keymap.
\<close>

theorem get_modifiers_after_failed_set_keymap:
  "run_ops toy_xkb kb_init ops_to_kb_failed = Inr kb_failed \<and>
   keymap kb_failed = None \<and>
   wlr_keyboard_get_modifiers kb_failed = 5 \<and>
   bit (wlr_keyboard_get_modifiers kb_failed) 0 \<and>
   \<not> spec_effective_modifier toy_xkb kb_failed 0"
proof -
  have b: "bit (5 :: u32) 0"
    by simp
  show ?thesis
    using b
    by (simp add: run_ops_eval get_modifiers_kb_mods)
       (simp add: kb_failed_eval spec_effective_modifier_def)
qed

text \<open>
  Claim C7, amended. In every state whose modifier-index table holds only entries that
  are \<open>XKB_MOD_INVALID\<close> or below 32 (the entries for which the shift is defined),
  bit \<open>i\<close> of \<open>wlr_keyboard_get_modifiers\<close> is set exactly when \<open>i < 8\<close>, entry \<open>i\<close> of the
  stored table is not \<open>XKB_MOD_INVALID\<close> and the bit at that index is set in the union of
  the stored depressed and latched masks; the locked mask has no influence. Every
  sequence of \<open>wlr_keyboard_notify_key\<close>, \<open>wlr_keyboard_notify_modifiers\<close> and
  \<open>wlr_keyboard_set_keymap\<close> calls from a keyboard without a keymap runs to a state in
  which, when a keymap is loaded, the stored table is the one looked up in that keymap in
  the order Shift, Lock (CapsLock), Control, Mod1 (Alt), Mod2, Mod3, Mod4 (Super), Mod5;
  there bit \<open>i\<close> is set exactly when modifier \<open>i\<close> has its index present in the current
  keymap and the bit at that index is set in the union. Without a keymap loaded the
  result comes from the table and the masks that are left in the keyboard.
\<close>

theorem get_modifiers_depressed_or_latched:
  "(mod_table_defined kb \<longrightarrow>
      (bit (wlr_keyboard_get_modifiers kb) i \<longleftrightarrow>
         i < WLR_MODIFIER_COUNT \<and> mod_indexes kb ! i \<noteq> XKB_MOD_INVALID \<and>
         bit (depressed (modifiers kb) OR latched (modifiers kb)) (unat (mod_indexes kb ! i)))) \<and>
   wlr_keyboard_get_modifiers (kb\<lparr>modifiers := (modifiers kb)\<lparr>locked := x\<rparr>\<rparr>)
     = wlr_keyboard_get_modifiers kb \<and>
   (keymap kb0 = None \<and> num_keycodes kb0 \<le> WLR_KEYBOARD_KEYS_CAP \<and>
    length (led_indexes kb0) = WLR_LED_COUNT \<and>
    length (mod_indexes kb0) = WLR_MODIFIER_COUNT \<longrightarrow>
    (\<exists>kb'. run_ops lib kb0 ops = Inr kb' \<and>
       (\<forall>km. keymap kb' = Some km \<longrightarrow>
          mod_indexes kb' = map (xkb_map_mod_get_index lib km)
            [''Shift'', ''Lock'', ''Control'', ''Mod1'', ''Mod2'', ''Mod3'', ''Mod4'', ''Mod5''] \<and>
          (mod_table_defined kb' \<longrightarrow>
             (\<forall>j. bit (wlr_keyboard_get_modifiers kb') j \<longleftrightarrow>
                    spec_effective_modifier lib kb' j)))))"
proof (intro conjI impI)
  assume "mod_table_defined kb"
  then show "bit (wlr_keyboard_get_modifiers kb) i \<longleftrightarrow>
         i < WLR_MODIFIER_COUNT \<and> mod_indexes kb ! i \<noteq> XKB_MOD_INVALID \<and>
         bit (depressed (modifiers kb) OR latched (modifiers kb)) (unat (mod_indexes kb ! i))"
    by (rule get_modifiers_bit_defined)
next
  show "wlr_keyboard_get_modifiers (kb\<lparr>modifiers := (modifiers kb)\<lparr>locked := x\<rparr>\<rparr>)
     = wlr_keyboard_get_modifiers kb"
    by (rule get_modifiers_ignores_locked)
next
  assume "keymap kb0 = None \<and> num_keycodes kb0 \<le> WLR_KEYBOARD_KEYS_CAP \<and>
    length (led_indexes kb0) = WLR_LED_COUNT \<and>
    length (mod_indexes kb0) = WLR_MODIFIER_COUNT"
  then have "kb_invariant lib kb0"
    by (simp add: kb_invariant_def table_of_keymap_def)
  from run_ops_keeps [OF this, of ops] obtain kb' where
    r: "run_ops lib kb0 ops = Inr kb'" and inv: "kb_invariant lib kb'"
    by blast
  have "mod_indexes kb' = map (xkb_map_mod_get_index lib km)
            [''Shift'', ''Lock'', ''Control'', ''Mod1'', ''Mod2'', ''Mod3'', ''Mod4'', ''Mod5''] \<and>
          (mod_table_defined kb' \<longrightarrow>
             (\<forall>j. bit (wlr_keyboard_get_modifiers kb') j \<longleftrightarrow>
                    spec_effective_modifier lib kb' j))"
    if k: "keymap kb' = Some km" for km
  proof (intro conjI impI allI)
    from inv k show "mod_indexes kb' = map (xkb_map_mod_get_index lib km)
            [''Shift'', ''Lock'', ''Control'', ''Mod1'', ''Mod2'', ''Mod3'', ''Mod4'', ''Mod5'']"
      by (simp add: kb_invariant_def table_of_keymap_def mod_names_def)
  next
    fix j
    assume "mod_table_defined kb'"
    with inv k show "bit (wlr_keyboard_get_modifiers kb') j \<longleftrightarrow>
                    spec_effective_modifier lib kb' j"
      by (simp add: get_modifiers_spec kb_invariant_def)
  qed
  with r show "\<exists>kb'. run_ops lib kb0 ops = Inr kb' \<and>
       (\<forall>km. keymap kb' = Some km \<longrightarrow>
          mod_indexes kb' = map (xkb_map_mod_get_index lib km)
            [''Shift'', ''Lock'', ''Control'', ''Mod1'', ''Mod2'', ''Mod3'', ''Mod4'', ''Mod5''] \<and>
          (mod_table_defined kb' \<longrightarrow>
             (\<forall>j. bit (wlr_keyboard_get_modifiers kb') j \<longleftrightarrow>
                    spec_effective_modifier lib kb' j)))"
    by blast
qed

theorem get_modifiers_depressed_or_latched_witness:
  "keymap kb_init = None \<and> num_keycodes kb_init \<le> WLR_KEYBOARD_KEYS_CAP \<and>
   length (led_indexes kb_init) = WLR_LED_COUNT \<and>
   length (mod_indexes kb_init) = WLR_MODIFIER_COUNT \<and>
   run_ops toy_xkb kb_init ops_to_kb_mods = Inr kb_mods \<and>
   keymap kb_mods = Some keymap_B \<and>
   mod_table_defined kb_mods \<and>
   mod_indexes kb_mods = [1, 2, 0, 3, 4, 5, 6, 0xffffffff] \<and>
   bit (wlr_keyboard_get_modifiers kb_mods) 0 \<and> spec_effective_modifier toy_xkb kb_mods 0 \<and>
   \<not> bit (wlr_keyboard_get_modifiers kb_mods) 1 \<and>
   bit (wlr_keyboard_get_modifiers kb_mods) 2 \<and> spec_effective_modifier toy_xkb kb_mods 2 \<and>
   \<not> bit (wlr_keyboard_get_modifiers kb_mods) 7"
proof -
  have h: "keymap kb_init = None \<and> num_keycodes kb_init \<le> WLR_KEYBOARD_KEYS_CAP \<and>
     length (led_indexes kb_init) = WLR_LED_COUNT \<and>
     length (mod_indexes kb_init) = WLR_MODIFIER_COUNT"
    by (simp add: kb_init_def WLR_KEYBOARD_KEYS_CAP_def WLR_LED_COUNT_def WLR_MODIFIER_COUNT_def)
  have r: "run_ops toy_xkb kb_init ops_to_kb_mods = Inr kb_mods"
    by (rule run_ops_eval)
  have k: "keymap kb_mods = Some keymap_B"
    by (simp add: kb_mods_eval kb_B_eval)
  have m: "mod_indexes kb_mods = [1, 2, 0, 3, 4, 5, 6, 0xffffffff]"
    "depressed (modifiers kb_mods) OR latched (modifiers kb_mods) = 3"
    by (simp_all add: kb_mods_eval kb_B_eval)
  have d: "mod_table_defined kb_mods"
    by (simp add: mod_table_defined_def mod_index_defined_def m WLR_MODIFIER_COUNT_def
        XKB_MOD_INVALID_def)
  have b: "bit (3 :: u32) 1" "bit (3 :: u32) 0" "\<not> bit (3 :: u32) 2"
    by (simp_all add: bit_numeral_rec)
  note th = get_modifiers_depressed_or_latched [of kb_mods _ 0 kb_init toy_xkb ops_to_kb_mods]
  from th [of 0] d m b have b0: "bit (wlr_keyboard_get_modifiers kb_mods) 0"
    by (simp add: WLR_MODIFIER_COUNT_def XKB_MOD_INVALID_def)
  from th [of 1] d m b have b1: "\<not> bit (wlr_keyboard_get_modifiers kb_mods) 1"
    by (simp add: WLR_MODIFIER_COUNT_def XKB_MOD_INVALID_def)
  from th [of 2] d m b have b2: "bit (wlr_keyboard_get_modifiers kb_mods) 2"
    by (simp add: WLR_MODIFIER_COUNT_def XKB_MOD_INVALID_def)
  from th [of 7] d m b have b7: "\<not> bit (wlr_keyboard_get_modifiers kb_mods) 7"
    by (simp add: WLR_MODIFIER_COUNT_def XKB_MOD_INVALID_def)
  from th [of 0] h r k d
  have sp: "bit (wlr_keyboard_get_modifiers kb_mods) j \<longleftrightarrow> spec_effective_modifier toy_xkb kb_mods j"
    for j
    by simp
  from sp [of 0] sp [of 2] b0 b2
  have s0: "spec_effective_modifier toy_xkb kb_mods 0"
    and s2: "spec_effective_modifier toy_xkb kb_mods 2"
    by simp_all
  from h r k d m(1) b0 b1 b2 b7 s0 s2 show ?thesis
    by simp
qed

section \<open>Indicator pushes\<close>

text \<open>
  Claim C8, as stated, fails. The claim says that every call of
  \<open>wlr_keyboard_notify_key\<close> or \<open>wlr_keyboard_notify_modifiers\<close> with a keymap loaded pushes
  the indicator mask to the backend exactly once. \<open>wlr_keyboard_led_update\<close> calls the
  backend only under the guard \<open>kb->impl && kb->impl->led_update\<close>: on a keyboard whose
  backend has no such hook, both operations push nothing.
\<close>

theorem no_led_push_without_hook:
  "xkb_state kb_no_hook = Some st_A \<and>
   filter is_led_push (snd (wlr_keyboard_notify_modifiers toy_xkb kb_no_hook 1 0 2 0)) = [] \<and>
   wlr_keyboard_notify_key toy_xkb kb_no_hook (press 50)
     = Inr (kb_no_hook\<lparr>keycodes := [50], xkb_state := Some (st_A\<lparr>ts_depressed := 1\<rparr>),
              modifiers := \<lparr>depressed = 1, latched = 0, locked = 0, group = 0\<rparr>\<rparr>,
            [Signal_key (press 50), Signal_modifiers])"
  by (simp add: kb_no_hook_def kb_A_eval st_A_def toy_defs kb_defs upt3 Let_def)

text \<open>
  Claim C8, amended. Every call of \<open>wlr_keyboard_notify_key\<close> or
  \<open>wlr_keyboard_notify_modifiers\<close> on a keyboard with a translation state recomputes the
  indicator mask from the translation state as the call has updated it and pushes it to
  the backend exactly once when the backend supplies an \<open>led_update\<close> hook, and not at
  all when the keyboard has no backend or the backend has no hook. The push does not
  depend on any mask pushed before: in the instance below, two identical modifier
  injections push the same mask twice.
\<close>

theorem led_push_not_change_gated:
  assumes "xkb_state kb = Some st" and "num_keycodes kb \<le> WLR_KEYBOARD_KEYS_CAP"
  shows
    "(\<exists>kb' t. wlr_keyboard_notify_key lib kb ev = Inr (kb', t) \<and>
        filter is_led_push t =
          (if impl_has_led_update kb
           then [Impl_led_update (led_mask lib
                   (if update_state ev
                    then xkb_state_update_key lib st (keycode ev + 8)
                           (if state ev = WLR_KEY_PRESSED then XKB_KEY_DOWN else XKB_KEY_UP)
                    else st) (led_indexes kb))]
           else [])) \<and>
     filter is_led_push (snd (wlr_keyboard_notify_modifiers lib kb d l lk g)) =
       (if impl_has_led_update kb
        then [Impl_led_update (led_mask lib (xkb_state_update_mask lib st d l lk 0 0 g)
                (led_indexes kb))]
        else [])"
proof (intro conjI)
  obtain kb' t where r: "wlr_keyboard_notify_key lib kb ev = Inr (kb', t)"
    and t: "t = [Signal_key ev]
             @ (if serialized lib (if update_state ev
                           then xkb_state_update_key lib st (keycode ev + 8)
                                  (if state ev = WLR_KEY_PRESSED then XKB_KEY_DOWN else XKB_KEY_UP)
                           else st) \<noteq> modifiers kb then [Signal_modifiers] else [])
             @ wlr_keyboard_led_update kb (led_mask lib (if update_state ev
                           then xkb_state_update_key lib st (keycode ev + 8)
                                  (if state ev = WLR_KEY_PRESSED then XKB_KEY_DOWN else XKB_KEY_UP)
                           else st) (led_indexes kb))"
    using notify_key_Some [OF assms, of lib ev] unfolding Let_def by blast
  have "filter is_led_push t =
          (if impl_has_led_update kb
           then [Impl_led_update (led_mask lib
                   (if update_state ev
                    then xkb_state_update_key lib st (keycode ev + 8)
                           (if state ev = WLR_KEY_PRESSED then XKB_KEY_DOWN else XKB_KEY_UP)
                    else st) (led_indexes kb))]
           else [])"
    unfolding t
    by (simp add: wlr_keyboard_led_update_def impl_has_led_update_def split: option.splits)
  with r show "\<exists>kb' t. wlr_keyboard_notify_key lib kb ev = Inr (kb', t) \<and>
        filter is_led_push t =
          (if impl_has_led_update kb
           then [Impl_led_update (led_mask lib
                   (if update_state ev
                    then xkb_state_update_key lib st (keycode ev + 8)
                           (if state ev = WLR_KEY_PRESSED then XKB_KEY_DOWN else XKB_KEY_UP)
                    else st) (led_indexes kb))]
           else [])"
    by blast
next
  show "filter is_led_push (snd (wlr_keyboard_notify_modifiers lib kb d l lk g)) =
       (if impl_has_led_update kb
        then [Impl_led_update (led_mask lib (xkb_state_update_mask lib st d l lk 0 0 g)
                (led_indexes kb))]
        else [])"
    using assms(1)
    by (simp add: notify_modifiers_Some Let_def wlr_keyboard_led_update_def
        impl_has_led_update_def split: option.splits)
qed


theorem led_push_not_change_gated_witness:
  "xkb_state kb_A = Some st_A \<and> num_keycodes kb_A \<le> WLR_KEYBOARD_KEYS_CAP \<and>
   impl_has_led_update kb_A \<and>
   filter is_led_push (snd (wlr_keyboard_notify_modifiers toy_xkb kb_A 1 0 2 0))
     = [Impl_led_update 1] \<and>
   filter is_led_push (snd (wlr_keyboard_notify_modifiers toy_xkb
        (fst (wlr_keyboard_notify_modifiers toy_xkb kb_A 1 0 2 0)) 1 0 2 0))
     = [Impl_led_update 1] \<and>
   (\<exists>kb' t. wlr_keyboard_notify_key toy_xkb kb_A (press 50) = Inr (kb', t) \<and>
             filter is_led_push t = [Impl_led_update 0])"
proof -
  define kb1 where "kb1 = fst (wlr_keyboard_notify_modifiers toy_xkb kb_A 1 0 2 0)"
  define st1 where "st1 = xkb_state_update_mask toy_xkb st_A 1 0 2 0 0 0"
  have h1: "xkb_state kb_A = Some st_A"
    by (simp add: kb_A_eval)
  have h2: "num_keycodes kb_A \<le> WLR_KEYBOARD_KEYS_CAP"
    by (simp add: kb_A_eval kb_init_def)
  have h3: "impl_has_led_update kb_A"
    by (simp add: kb_A_eval kb_init_def impl_has_led_update_def)
  have g1: "xkb_state kb1 = Some st1" and g2: "num_keycodes kb1 \<le> WLR_KEYBOARD_KEYS_CAP"
    and g3: "impl_has_led_update kb1" and g4: "led_indexes kb1 = led_indexes kb_A"
    unfolding kb1_def st1_def notify_modifiers_Some [OF h1] Let_def
    using h1 h2 h3 by (simp_all add: impl_has_led_update_def)
  have m1: "led_mask toy_xkb st1 (led_indexes kb_A) = 1"
    by (simp add: st1_def led_mask_def kb_A_eval kb_init_def st_A_def toy_defs WLR_LED_COUNT_def
        upt3 bit_numeral_rec)
  have m2: "led_mask toy_xkb (xkb_state_update_mask toy_xkb st1 1 0 2 0 0 0) (led_indexes kb_A) = 1"
    by (simp add: st1_def led_mask_def kb_A_eval kb_init_def st_A_def toy_defs WLR_LED_COUNT_def
        upt3 bit_numeral_rec)
  have m3: "led_mask toy_xkb (xkb_state_update_key toy_xkb st_A (50 + 8) XKB_KEY_DOWN)
              (led_indexes kb_A) = 0"
    by (simp add: led_mask_def kb_A_eval kb_init_def st_A_def toy_defs WLR_LED_COUNT_def upt3)
  from led_push_not_change_gated [OF h1 h2, of toy_xkb "press 50" 1 0 2 0]
    led_push_not_change_gated [OF g1 g2, of toy_xkb "press 50" 1 0 2 0]
    h1 h2 h3 g3 g4 m1 m2 m3
  show ?thesis
    unfolding kb1_def [symmetric] st1_def [symmetric]
    by (simp add: press_def)
qed

text \<open>
  Claim C2 says that an indicator whose index is absent in the keymap has its bit clear
  in the pushed mask. \<open>keyboard_led_update\<close> passes \<open>led_indexes[i]\<close> to
  \<open>xkb_state_led_index_is_active\<close> without comparing it with \<open>XKB_LED_INVALID\<close> (as
  \<open>wlr_keyboard_get_modifiers\<close> does with \<open>XKB_MOD_INVALID\<close>) and sets the bit when the
  answer is non-zero. libxkbcommon answers -1 for an index that is not valid in the
  keymap. Keymap B has no Scroll Lock indicator; with no modifier locked at all, the
  mask pushed for it is 4, the Scroll Lock bit.
\<close>

theorem absent_indicator_reported_active:
  "xkb_map_led_get_index toy_xkb keymap_B ''Scroll Lock'' = XKB_LED_INVALID \<and>
   xkb_state kb_B = Some st_B \<and>
   led_indexes kb_B ! 2 = XKB_LED_INVALID \<and>
   xkb_state_led_index_is_active toy_xkb st_B XKB_LED_INVALID = - 1 \<and>
   led_mask toy_xkb st_B (led_indexes kb_B) = 4 \<and>
   keyboard_led_update toy_xkb kb_B = [Impl_led_update 4] \<and>
   bit (led_mask toy_xkb st_B (led_indexes kb_B)) 2"
proof -
  have i: "xkb_map_led_get_index toy_xkb keymap_B ''Scroll Lock'' = XKB_LED_INVALID"
    by (simp add: toy_defs XKB_LED_INVALID_def)
  have s: "xkb_state kb_B = Some st_B"
    by (simp add: kb_B_eval)
  have l: "led_indexes kb_B ! 2 = XKB_LED_INVALID"
    by (simp add: kb_B_eval XKB_LED_INVALID_def)
  have a: "xkb_state_led_index_is_active toy_xkb st_B XKB_LED_INVALID = - 1"
    by (simp add: st_B_def toy_defs XKB_LED_INVALID_def)
  have m: "led_mask toy_xkb st_B (led_indexes kb_B) = 4"
    by (simp add: led_mask_def kb_B_eval kb_init_def st_B_def toy_defs WLR_LED_COUNT_def upt3)
  have "keyboard_led_update toy_xkb kb_B = wlr_keyboard_led_update kb_B 4"
    by (simp add: keyboard_led_update_def s m)
  also have "\<dots> = [Impl_led_update 4]"
    by (simp add: wlr_keyboard_led_update_def kb_B_eval kb_init_def)
  finally have k: "keyboard_led_update toy_xkb kb_B = [Impl_led_update 4]" .
  have b: "bit (4 :: u32) 2"
    by (simp add: bit_numeral_rec)
  from i s l a m k b show ?thesis
    by simp
qed


section \<open>The key set under sequences of events\<close>

lemma set_add_distinct: "distinct vs \<Longrightarrow> distinct (set_add vs cap k)"
  by (simp add: set_add_def)

lemma set_add_subset: "set (set_add vs cap k) \<subseteq> insert k (set vs)"
  by (auto simp: set_add_def)

lemma set_add_insert:
  "k \<in> set vs \<or> length vs < cap \<Longrightarrow> set (set_add vs cap k) = insert k (set vs)"
  by (auto simp: set_add_def)

lemma set_remove_distinct: "distinct vs \<Longrightarrow> distinct (set_remove vs cap k)"
  by (simp add: set_remove_def)

lemma set_remove_set: "distinct vs \<Longrightarrow> set (set_remove vs cap k) = set vs - {k}"
  by (simp add: set_remove_def)

lemma spec_within_capacity_head: "spec_within_capacity cap S evs \<Longrightarrow> card S \<le> cap"
  by (cases evs) simp_all

lemma spec_pressed_finite: "finite S \<Longrightarrow> finite (spec_pressed S evs)"
  by (induction evs arbitrary: S) (auto simp: spec_step_def split: wlr_key_state.splits)

lemma key_updates_invariant:
  assumes "distinct (keycodes kb)" and "num_keycodes kb \<le> WLR_KEYBOARD_KEYS_CAP"
    and "set (keycodes kb) \<subseteq> S"
  shows "\<exists>kb'. key_updates kb evs = Inr kb' \<and> distinct (keycodes kb') \<and>
           num_keycodes kb' \<le> WLR_KEYBOARD_KEYS_CAP \<and>
           set (keycodes kb') \<subseteq> spec_pressed S evs"
  using assms
proof (induction evs arbitrary: kb S)
  case Nil
  then show ?case by simp
next
  case (Cons ev evs)
  define ks where "ks = (case state ev of
      WLR_KEY_PRESSED \<Rightarrow> set_add (keycodes kb) WLR_KEYBOARD_KEYS_CAP (keycode ev)
    | WLR_KEY_RELEASED \<Rightarrow> set_remove (keycodes kb) WLR_KEYBOARD_KEYS_CAP (keycode ev))"
  have step: "keyboard_key_update kb ev = Inr (kb\<lparr>keycodes := ks\<rparr>)"
    unfolding ks_def by (rule keyboard_key_update_Inr [OF Cons.prems(2)])
  have d: "distinct ks"
    unfolding ks_def using Cons.prems(1)
    by (simp add: set_add_distinct set_remove_distinct split: wlr_key_state.splits)
  have l: "length ks \<le> WLR_KEYBOARD_KEYS_CAP"
    using step by (auto simp: keyboard_key_update_def Let_def split: if_splits)
  have s: "set ks \<subseteq> spec_step S ev"
    unfolding ks_def spec_step_def
    using Cons.prems(1,3) set_add_subset [of "keycodes kb" WLR_KEYBOARD_KEYS_CAP "keycode ev"]
    by (auto simp: set_remove_set split: wlr_key_state.splits)
  from Cons.IH [of "kb\<lparr>keycodes := ks\<rparr>" "spec_step S ev"] d l s step
  show ?case by simp
qed

lemma key_updates_exact:
  assumes "distinct (keycodes kb)"
    and "spec_within_capacity WLR_KEYBOARD_KEYS_CAP (set (keycodes kb)) evs"
  shows "\<exists>kb'. key_updates kb evs = Inr kb' \<and>
           set (keycodes kb') = spec_pressed (set (keycodes kb)) evs"
  using assms
proof (induction evs arbitrary: kb)
  case Nil
  then show ?case by simp
next
  case (Cons ev evs)
  define ks where "ks = (case state ev of
      WLR_KEY_PRESSED \<Rightarrow> set_add (keycodes kb) WLR_KEYBOARD_KEYS_CAP (keycode ev)
    | WLR_KEY_RELEASED \<Rightarrow> set_remove (keycodes kb) WLR_KEYBOARD_KEYS_CAP (keycode ev))"
  from Cons.prems have c: "card (set (keycodes kb)) \<le> WLR_KEYBOARD_KEYS_CAP"
    and tl: "spec_within_capacity WLR_KEYBOARD_KEYS_CAP (spec_step (set (keycodes kb)) ev) evs"
    by simp_all
  from c Cons.prems(1) have len: "num_keycodes kb \<le> WLR_KEYBOARD_KEYS_CAP"
    by (simp add: distinct_card)
  have step: "keyboard_key_update kb ev = Inr (kb\<lparr>keycodes := ks\<rparr>)"
    unfolding ks_def by (rule keyboard_key_update_Inr [OF len])
  have d: "distinct ks"
    unfolding ks_def using Cons.prems(1)
    by (simp add: set_add_distinct set_remove_distinct split: wlr_key_state.splits)
  have s: "set ks = spec_step (set (keycodes kb)) ev"
  proof (cases "state ev")
    case WLR_KEY_RELEASED
    then show ?thesis
      using Cons.prems(1) by (simp add: ks_def spec_step_def set_remove_set)
  next
    case WLR_KEY_PRESSED
    have "keycode ev \<in> set (keycodes kb) \<or> num_keycodes kb < WLR_KEYBOARD_KEYS_CAP"
    proof (cases "keycode ev \<in> set (keycodes kb)")
      case True
      then show ?thesis by simp
    next
      case False
      from spec_within_capacity_head [OF tl] WLR_KEY_PRESSED
      have "card (insert (keycode ev) (set (keycodes kb))) \<le> WLR_KEYBOARD_KEYS_CAP"
        by (simp add: spec_step_def)
      with False Cons.prems(1) show ?thesis
        by (simp add: distinct_card)
    qed
    then show ?thesis
      using WLR_KEY_PRESSED by (simp add: ks_def spec_step_def set_add_insert)
  qed
  from Cons.IH [of "kb\<lparr>keycodes := ks\<rparr>"] d tl s step
  show ?case by simp
qed

lemma key_update_press_present:
  assumes "num_keycodes kb \<le> WLR_KEYBOARD_KEYS_CAP" and "state ev = WLR_KEY_PRESSED"
    and "keycode ev \<in> set (keycodes kb)"
  shows "keyboard_key_update kb ev = Inr kb"
  using assms by (simp add: keyboard_key_update_Inr set_add_def)

lemma key_update_release_absent:
  assumes "num_keycodes kb \<le> WLR_KEYBOARD_KEYS_CAP" and "state ev = WLR_KEY_RELEASED"
    and "keycode ev \<notin> set (keycodes kb)"
  shows "keyboard_key_update kb ev = Inr kb"
  using assms by (simp add: keyboard_key_update_Inr set_remove_def remove1_idem)

text \<open>The 33 presses, and the key set they leave, written out.\<close>

lemma presses_33_eval:
  "presses_33 = map press [0, 1, 2, 3, 4, 5, 6, 7, 8, 9, 10, 11, 12, 13, 14, 15, 16, 17, 18, 19,
     20, 21, 22, 23, 24, 25, 26, 27, 28, 29, 30, 31, 32]"
  by (simp add: presses_33_def upt_rec)

lemma kb_full_eval:
  "kb_full = kb_init\<lparr>keycodes := [0, 1, 2, 3, 4, 5, 6, 7, 8, 9, 10, 11, 12, 13, 14, 15, 16, 17,
     18, 19, 20, 21, 22, 23, 24, 25, 26, 27, 28, 29, 30, 31]\<rparr>"
  by (simp add: kb_full_def upt_rec)

lemma key_updates_presses_33: "key_updates kb_init presses_33 = Inr kb_full"
  unfolding presses_33_eval kb_full_eval
  by (simp add: keyboard_key_update_def set_add_def press_def kb_init_def WLR_KEYBOARD_KEYS_CAP_def)

lemma spec_pressed_presses_33: "card (spec_pressed {} presses_33) = 33"
  unfolding presses_33_eval
  by (simp add: spec_step_def press_def)

text \<open>
  Claim C9, as stated, fails. The claim says that after every sequence of presses and
  releases the size of the key set is the number of distinct currently-pressed
  keycodes. The key set is capped: after 33 distinct keycodes have been pressed and none
  released, it holds the first 32 of them.
\<close>

theorem key_set_capped_below_pressed_keys:
  "key_updates kb_init presses_33 = Inr kb_full \<and>
   num_keycodes kb_full = 32 \<and>
   card (spec_pressed {} presses_33) = 33 \<and>
   num_keycodes kb_full \<noteq> card (spec_pressed {} presses_33)"
  by (simp add: key_updates_presses_33 spec_pressed_presses_33) (simp add: kb_full_def)


text \<open>
  Claim C9, amended. From an empty key set, every sequence of key events is processed
  without a failed assertion and leaves a key set without duplicates, of a size within
  the capacity, that holds pressed keycodes only. As long as the number of distinct
  pressed keycodes stays within the capacity along the sequence, the key set holds
  exactly the currently pressed keycodes, and its size is their number. Pressing a
  keycode that is in the key set, or releasing one that is not, leaves the keyboard
  unchanged.
\<close>

theorem key_set_tracks_pressed_keys_within_capacity:
  assumes "keycodes kb = []"
  shows "(\<exists>kb'. key_updates kb evs = Inr kb' \<and>
            distinct (keycodes kb') \<and>
            num_keycodes kb' \<le> WLR_KEYBOARD_KEYS_CAP \<and>
            set (keycodes kb') \<subseteq> spec_pressed {} evs \<and>
            (spec_within_capacity WLR_KEYBOARD_KEYS_CAP {} evs \<longrightarrow>
               set (keycodes kb') = spec_pressed {} evs \<and>
               num_keycodes kb' = card (spec_pressed {} evs))) \<and>
         (num_keycodes kb2 \<le> WLR_KEYBOARD_KEYS_CAP \<and> state ev = WLR_KEY_PRESSED \<and>
          keycode ev \<in> set (keycodes kb2) \<longrightarrow> keyboard_key_update kb2 ev = Inr kb2) \<and>
         (num_keycodes kb2 \<le> WLR_KEYBOARD_KEYS_CAP \<and> state ev = WLR_KEY_RELEASED \<and>
          keycode ev \<notin> set (keycodes kb2) \<longrightarrow> keyboard_key_update kb2 ev = Inr kb2)"
proof (intro conjI)
  from key_updates_invariant [of kb "{}" evs] assms
  obtain kb' where r: "key_updates kb evs = Inr kb'" and d: "distinct (keycodes kb')"
    and l: "num_keycodes kb' \<le> WLR_KEYBOARD_KEYS_CAP"
    and s: "set (keycodes kb') \<subseteq> spec_pressed {} evs"
    by auto
  have "spec_within_capacity WLR_KEYBOARD_KEYS_CAP {} evs \<longrightarrow>
               set (keycodes kb') = spec_pressed {} evs \<and>
               num_keycodes kb' = card (spec_pressed {} evs)"
  proof
    assume "spec_within_capacity WLR_KEYBOARD_KEYS_CAP {} evs"
    with key_updates_exact [of kb evs] assms r
    have e: "set (keycodes kb') = spec_pressed {} evs" by auto
    with d show "set (keycodes kb') = spec_pressed {} evs \<and>
               num_keycodes kb' = card (spec_pressed {} evs)"
      using distinct_card [OF d] by simp
  qed
  with r d l s show "\<exists>kb'. key_updates kb evs = Inr kb' \<and>
            distinct (keycodes kb') \<and>
            num_keycodes kb' \<le> WLR_KEYBOARD_KEYS_CAP \<and>
            set (keycodes kb') \<subseteq> spec_pressed {} evs \<and>
            (spec_within_capacity WLR_KEYBOARD_KEYS_CAP {} evs \<longrightarrow>
               set (keycodes kb') = spec_pressed {} evs \<and>
               num_keycodes kb' = card (spec_pressed {} evs))"
    by blast
next
  show "num_keycodes kb2 \<le> WLR_KEYBOARD_KEYS_CAP \<and> state ev = WLR_KEY_PRESSED \<and>
          keycode ev \<in> set (keycodes kb2) \<longrightarrow> keyboard_key_update kb2 ev = Inr kb2"
    by (simp add: key_update_press_present)
next
  show "num_keycodes kb2 \<le> WLR_KEYBOARD_KEYS_CAP \<and> state ev = WLR_KEY_RELEASED \<and>
          keycode ev \<notin> set (keycodes kb2) \<longrightarrow> keyboard_key_update kb2 ev = Inr kb2"
    by (simp add: key_update_release_absent)
qed


theorem key_set_tracks_pressed_keys_within_capacity_witness:
  "keycodes kb_init = [] \<and>
   spec_within_capacity WLR_KEYBOARD_KEYS_CAP {} key_events_example \<and>
   spec_pressed {} key_events_example = {50} \<and>
   (\<exists>kb'. key_updates kb_init key_events_example = Inr kb' \<and> keycodes kb' = [50] \<and>
          num_keycodes kb' = card (spec_pressed {} key_events_example)) \<and>
   num_keycodes kb_held \<le> WLR_KEYBOARD_KEYS_CAP \<and>
   keycode (press 50) \<in> set (keycodes kb_held) \<and>
   keyboard_key_update kb_held (press 50) = Inr kb_held \<and>
   keycode (release 7) \<notin> set (keycodes kb_held) \<and>
   keyboard_key_update kb_held (release 7) = Inr kb_held"
proof -
  have h: "keycodes kb_init = []"
    by (simp add: kb_init_def)
  have c: "spec_within_capacity WLR_KEYBOARD_KEYS_CAP {} key_events_example"
    by (simp add: key_events_example_def spec_step_def press_def release_def
        WLR_KEYBOARD_KEYS_CAP_def insert_absorb)
  have p: "spec_pressed {} key_events_example = {50}"
    by (simp add: key_events_example_def spec_step_def press_def release_def insert_absorb)
  have k: "key_updates kb_init key_events_example = Inr (kb_init\<lparr>keycodes := [50]\<rparr>)"
    by (simp add: key_events_example_def keyboard_key_update_def set_add_def set_remove_def
        press_def release_def kb_init_def WLR_KEYBOARD_KEYS_CAP_def)
  have g: "num_keycodes kb_held \<le> WLR_KEYBOARD_KEYS_CAP"
    "state (press 50) = WLR_KEY_PRESSED" "keycode (press 50) \<in> set (keycodes kb_held)"
    "state (release 7) = WLR_KEY_RELEASED" "keycode (release 7) \<notin> set (keycodes kb_held)"
    by (simp_all add: kb_held_def press_def release_def WLR_KEYBOARD_KEYS_CAP_def)
  from key_set_tracks_pressed_keys_within_capacity [OF h, of key_events_example kb_held "press 50"]
    key_set_tracks_pressed_keys_within_capacity [OF h, of key_events_example kb_held "release 7"]
    h c p k g
  show ?thesis
    by simp
qed


end
